theory Spec2Isabelle
  imports Main
begin

section \<open>Strings as the route handler uses them\<close>

text \<open>
  The aircraft-info route works on JavaScript strings. They are modelled as
  \<^typ>\<open>string\<close> restricted to ASCII text: \<open>toUpperCase\<close> maps the letters a to z
  and leaves every other character alone, \<open>trim\<close> removes the ASCII white space
  characters (tab, line feed, vertical tab, form feed, carriage return, space)
  from both ends. A value of type \<open>string | null\<close> is a \<^typ>\<open>string option\<close>.
\<close>

definition toUpperChar :: "char \<Rightarrow> char" where
  "toUpperChar c =
     (case map_of (zip ''abcdefghijklmnopqrstuvwxyz'' ''ABCDEFGHIJKLMNOPQRSTUVWXYZ'') c of
        None \<Rightarrow> c
      | Some u \<Rightarrow> u)"

definition toUpperCase :: "string \<Rightarrow> string" where
  "toUpperCase s = map toUpperChar s"

definition isSpace :: "char \<Rightarrow> bool" where
  "isSpace c = (c \<in> set [CHR 0x09, CHR 0x0A, CHR 0x0B, CHR 0x0C, CHR 0x0D, CHR '' ''])"

definition trim :: "string \<Rightarrow> string" where
  "trim s = rev (dropWhile isSpace (rev (dropWhile isSpace s)))"

text \<open>\<open>s.startsWith(p)\<close>\<close>

fun startsWith :: "string \<Rightarrow> string \<Rightarrow> bool" where
  "startsWith s [] = True"
| "startsWith [] (p # ps) = False"
| "startsWith (c # cs) (p # ps) = (c = p \<and> startsWith cs ps)"

text \<open>\<open>s.includes(p)\<close>: \<open>p\<close> occurs in \<open>s\<close> as a contiguous run of characters.\<close>

fun str_includes :: "string \<Rightarrow> string \<Rightarrow> bool" where
  "str_includes [] p = (p = [])"
| "str_includes (c # cs) p = (startsWith (c # cs) p \<or> str_includes cs p)"

text \<open>
  JavaScript truthiness of a \<open>string | null\<close> value: \<open>null\<close> and the empty string
  are falsy, every other string is truthy. \<open>x || null\<close> is \<open>or_null x\<close>, and
  \<open>x || y\<close> on two such values is \<open>or_else x y\<close>.
\<close>

definition truthy :: "string option \<Rightarrow> bool" where
  "truthy x = (case x of None \<Rightarrow> False | Some s \<Rightarrow> s \<noteq> [])"

definition or_else :: "string option \<Rightarrow> string option \<Rightarrow> string option" where
  "or_else x y = (if truthy x then x else y)"

definition or_null :: "string option \<Rightarrow> string option" where
  "or_null x = or_else x None"

section \<open>Category classifier\<close>

text \<open>
  \<open>getAircraftCategory(model)\<close>: the rule groups are tried in the order Heavy,
  Medium, Regional, Small, Helicopter on the upper-cased, trimmed model string.
\<close>

definition getAircraftCategory :: "string option \<Rightarrow> string" where
  "getAircraftCategory model =
     (if \<not> truthy model then ''unknown''
      else
        let modelUpper = trim (toUpperCase (the model)) in
        if str_includes modelUpper ''A350'' \<or> str_includes modelUpper ''A380'' \<or>
           str_includes modelUpper ''B747'' \<or> str_includes modelUpper ''B777'' \<or>
           str_includes modelUpper ''B787'' \<or> str_includes modelUpper ''B767''
        then ''A5''
        else if str_includes modelUpper ''A3'' \<or> str_includes modelUpper ''B7'' \<or>
           str_includes modelUpper ''B757'' \<or> str_includes modelUpper ''A300'' \<or>
           str_includes modelUpper ''A310'' \<or> str_includes modelUpper ''MD80'' \<or>
           str_includes modelUpper ''MD90''
        then ''A3''
        else if str_includes modelUpper ''E170'' \<or> str_includes modelUpper ''E175'' \<or>
           str_includes modelUpper ''E190'' \<or> str_includes modelUpper ''E195'' \<or>
           str_includes modelUpper ''E275'' \<or> str_includes modelUpper ''E290'' \<or>
           str_includes modelUpper ''E295'' \<or> str_includes modelUpper ''CRJ'' \<or>
           str_includes modelUpper ''ATR'' \<or> str_includes modelUpper ''DASH8'' \<or>
           str_includes modelUpper ''Q400''
        then ''A2''
        else if str_includes modelUpper ''CESSNA'' \<or> str_includes modelUpper ''PIPER'' \<or>
           str_includes modelUpper ''BEECHCRAFT'' \<or> str_includes modelUpper ''CIRRUS'' \<or>
           str_includes modelUpper ''DIAMOND'' \<or> str_includes modelUpper ''ROBIN''
        then ''A1''
        else if str_includes modelUpper ''HELICOPTER'' \<or> str_includes modelUpper ''ROTORCRAFT'' \<or>
           str_includes modelUpper ''H125'' \<or> str_includes modelUpper ''H135'' \<or>
           str_includes modelUpper ''H145'' \<or> str_includes modelUpper ''H175'' \<or>
           str_includes modelUpper ''AW139'' \<or> str_includes modelUpper ''AW169'' \<or>
           str_includes modelUpper ''AW189''
        then ''B1''
        else ''unknown'')"

section \<open>Registration from a callsign\<close>

text \<open>The table \<open>registrationPrefixes\<close>, in the order (and with the repetitions) of the source.\<close>

definition registrationPrefixes :: "string list" where
  "registrationPrefixes = [
    ''OK'', ''OL'', ''OM'', ''ON'', ''OO'', ''OP'', ''OQ'', ''OR'', ''OS'', ''OT'', ''OU'',
    ''OV'', ''OW'', ''OX'', ''OY'', ''OZ'', ''SP'', ''SN'', ''SO'', ''SO'', ''SQ'', ''SR'',
    ''SS'', ''ST'', ''SU'', ''SV'', ''SW'', ''SX'', ''SY'', ''SZ'', ''D'', ''DA'', ''DB'',
    ''DC'', ''DD'', ''DE'', ''DF'', ''DG'', ''DH'', ''DI'', ''DJ'', ''DK'', ''DL'', ''DM'',
    ''DN'', ''DO'', ''DP'', ''DQ'', ''DR'', ''DS'', ''DT'', ''DU'', ''DV'', ''DW'', ''DX'',
    ''DY'', ''DZ'', ''OE'', ''OF'', ''OG'', ''OH'', ''OI'', ''OJ'', ''OK'', ''OL'', ''OM'',
    ''ON'', ''OO'', ''OP'', ''OQ'', ''OR'', ''OS'', ''OT'', ''OU'', ''OV'', ''OW'', ''OX'',
    ''OY'', ''OZ'', ''G'', ''GA'', ''GB'', ''GC'', ''GD'', ''GE'', ''GF'', ''GG'', ''GH'',
    ''GI'', ''GJ'', ''GK'', ''GL'', ''GM'', ''GN'', ''GO'', ''GP'', ''GQ'', ''GR'', ''GS'',
    ''GT'', ''GU'', ''GV'', ''GW'', ''GX'', ''GY'', ''GZ'', ''HB'', ''HC'', ''HD'', ''HE'',
    ''HF'', ''HG'', ''HH'', ''HI'', ''HJ'', ''HK'', ''HL'', ''HM'', ''HN'', ''HO'', ''HP'',
    ''HQ'', ''HR'', ''HS'', ''HT'', ''HU'', ''HV'', ''HW'', ''HX'', ''HY'', ''HZ'', ''LX'',
    ''LY'', ''LZ'', ''HA'', ''HB'', ''HC'', ''HD'', ''HE'', ''HF'', ''HG'', ''HH'', ''HI'',
    ''HJ'', ''HK'', ''HL'', ''HM'', ''HN'', ''HO'', ''HP'', ''HQ'', ''HR'', ''HS'', ''HT'',
    ''HU'', ''HV'', ''HW'', ''HX'', ''HY'', ''HZ'', ''F'', ''FA'', ''FB'', ''FC'', ''FD'',
    ''FE'', ''FF'', ''FG'', ''FH'', ''FI'', ''FJ'', ''FK'', ''FL'', ''FM'', ''FN'', ''FO'',
    ''FP'', ''FQ'', ''FR'', ''FS'', ''FT'', ''FU'', ''FV'', ''FW'', ''FX'', ''FY'', ''FZ'',
    ''I'', ''IA'', ''IB'', ''IC'', ''ID'', ''IE'', ''IF'', ''IG'', ''IH'', ''II'', ''IJ'',
    ''IK'', ''IL'', ''IM'', ''IN'', ''IO'', ''IP'', ''IQ'', ''IR'', ''IS'', ''IT'', ''IU'',
    ''IV'', ''IW'', ''IX'', ''IY'', ''IZ'', ''EC'', ''ED'', ''EE'', ''EF'', ''EG'', ''EH'',
    ''EI'', ''EJ'', ''EK'', ''EL'', ''EM'', ''EN'', ''EO'', ''EP'', ''EQ'', ''ER'', ''ES'',
    ''ET'', ''EU'', ''EV'', ''EW'', ''EX'', ''EY'', ''EZ'', ''PH'', ''PI'', ''PJ'', ''PK'',
    ''PL'', ''PM'', ''PN'', ''PO'', ''PP'', ''PQ'', ''PR'', ''PS'', ''PT'', ''PU'', ''PV'',
    ''PW'', ''PX'', ''PY'', ''PZ'', ''OO'', ''OP'', ''OQ'', ''OR'', ''OS'', ''OT'', ''OU'',
    ''OV'', ''OW'', ''OX'', ''OY'', ''OZ'', ''OY'', ''OZ'', ''LN'', ''LO'', ''LP'', ''LQ'',
    ''LR'', ''LS'', ''LT'', ''LU'', ''LV'', ''LW'', ''LX'', ''LY'', ''LZ'', ''SE'', ''SF'',
    ''SG'', ''SH'', ''SI'', ''SJ'', ''SK'', ''SL'', ''SM'', ''SN'', ''SO'', ''SP'', ''SQ'',
    ''SR'', ''SS'', ''ST'', ''SU'', ''SV'', ''SW'', ''SX'', ''SY'', ''SZ'', ''OH'', ''OI'',
    ''OJ'', ''OK'', ''OL'', ''OM'', ''ON'', ''OO'', ''OP'', ''OQ'', ''OR'', ''OS'', ''OT'',
    ''OU'', ''OV'', ''OW'', ''OX'', ''OY'', ''OZ'', ''ES'', ''ET'', ''EU'', ''EV'', ''EW'',
    ''EX'', ''EY'', ''EZ'', ''YL'', ''YM'', ''YN'', ''YO'', ''YP'', ''YQ'', ''YR'', ''YS'',
    ''YT'', ''YU'', ''YV'', ''YW'', ''YX'', ''YY'', ''YZ'', ''LY'', ''LZ'', ''OM'', ''ON'',
    ''OO'', ''OP'', ''OQ'', ''OR'', ''OS'', ''OT'', ''OU'', ''OV'', ''OW'', ''OX'', ''OY'',
    ''OZ'', ''S5'', ''S6'', ''S7'', ''S8'', ''S9'', ''9A'', ''9B'', ''9C'', ''9D'', ''9E'',
    ''9F'', ''9G'', ''9H'', ''9I'', ''9J'', ''9K'', ''9L'', ''9M'', ''9N'', ''9O'', ''9P'',
    ''9Q'', ''9R'', ''9S'', ''9T'', ''9U'', ''9V'', ''9W'', ''9X'', ''9Y'', ''9Z'', ''YU'',
    ''YV'', ''YW'', ''YX'', ''YY'', ''YZ'', ''LZ'', ''L1'', ''L2'', ''L3'', ''L4'', ''L5'',
    ''L6'', ''L7'', ''L8'', ''L9'', ''YR'', ''YS'', ''YT'', ''YU'', ''YV'', ''YW'', ''YX'',
    ''YY'', ''YZ'', ''SX'', ''SY'', ''SZ'', ''5B'', ''5C'', ''5D'', ''5E'', ''5F'', ''5G'',
    ''5H'', ''5I'', ''5J'', ''5K'', ''5L'', ''5M'', ''5N'', ''5O'', ''5P'', ''5Q'', ''5R'',
    ''5S'', ''5T'', ''5U'', ''5V'', ''5W'', ''5X'', ''5Y'', ''5Z'', ''9H'', ''9I'', ''9J'',
    ''9K'', ''9L'', ''9M'', ''9N'', ''9O'', ''9P'', ''9Q'', ''9R'', ''9S'', ''9T'', ''9U'',
    ''9V'', ''9W'', ''9X'', ''9Y'', ''9Z'', ''EI'', ''EJ'', ''EK'', ''EL'', ''EM'', ''EN'',
    ''EO'', ''EP'', ''EQ'', ''ER'', ''ES'', ''ET'', ''EU'', ''EV'', ''EW'', ''EX'', ''EY'',
    ''EZ'', ''CS'', ''CT'', ''CU'', ''CV'', ''CW'', ''CX'', ''CY'', ''CZ'', ''TF'', ''TG'',
    ''TH'', ''TI'', ''TJ'', ''TK'', ''TL'', ''TM'', ''TN'', ''TO'', ''TP'', ''TQ'', ''TR'',
    ''TS'', ''TT'', ''TU'', ''TV'', ''TW'', ''TX'', ''TY'', ''TZ''
  ]"

text \<open>The test \<open>/^[A-Z0-9]+$/\<close> on the suffix.\<close>

definition isAZ09 :: "char \<Rightarrow> bool" where
  "isAZ09 c = (c \<in> set ''ABCDEFGHIJKLMNOPQRSTUVWXYZ0123456789'')"

definition matchesAZ09 :: "string \<Rightarrow> bool" where
  "matchesAZ09 s = (s \<noteq> [] \<and> list_all isAZ09 s)"

text \<open>
  The \<open>for (const prefix of registrationPrefixes)\<close> loop: the first table entry
  that the callsign starts with and that leaves a suffix of one to three
  characters from A to Z and 0 to 9 ends the loop with \<open>prefix-suffix\<close>; an entry
  that fails any of the three tests is passed over.
\<close>

fun scanPrefixes :: "string list \<Rightarrow> string \<Rightarrow> string option" where
  "scanPrefixes [] cleanCallsign = None"
| "scanPrefixes (prefix # rest) cleanCallsign =
     (if startsWith cleanCallsign prefix then
        (let suffix = drop (length prefix) cleanCallsign in
         if 1 \<le> length suffix \<and> length suffix \<le> 3 then
           (if matchesAZ09 suffix then Some (prefix @ ''-'' @ suffix)
            else scanPrefixes rest cleanCallsign)
         else scanPrefixes rest cleanCallsign)
      else scanPrefixes rest cleanCallsign)"

definition extractRegistrationFromCallsign :: "string option \<Rightarrow> string option" where
  "extractRegistrationFromCallsign callsign =
     (if \<not> truthy callsign then None
      else scanPrefixes registrationPrefixes (toUpperCase (trim (the callsign))))"

text \<open>The three tests of the loop body on one table entry.\<close>

definition qualifies :: "string \<Rightarrow> string \<Rightarrow> bool" where
  "qualifies prefix cleanCallsign =
     (startsWith cleanCallsign prefix \<and>
      1 \<le> length (drop (length prefix) cleanCallsign) \<and>
      length (drop (length prefix) cleanCallsign) \<le> 3 \<and>
      matchesAZ09 (drop (length prefix) cleanCallsign))"

text \<open>
  The derivation as the specification words it, for comparison with the loop
  above: among the table entries the callsign starts with, the longest is
  chosen (the first of them among equally long ones), and the result is \<open>null\<close>
  unless what follows that entry is one to three characters from A to Z and 0
  to 9.
\<close>

definition longestMatchingPrefix :: "string list \<Rightarrow> string \<Rightarrow> string option" where
  "longestMatchingPrefix table cleanCallsign =
     fold (\<lambda>p best.
             if startsWith cleanCallsign p \<and>
                (case best of None \<Rightarrow> True | Some b \<Rightarrow> length b < length p)
             then Some p else best)
          table None"

definition deriveRegistrationFromCallsign_spec :: "string option \<Rightarrow> string option" where
  "deriveRegistrationFromCallsign_spec callsign =
     (if \<not> truthy callsign then None
      else
        (let cleanCallsign = toUpperCase (trim (the callsign)) in
         case longestMatchingPrefix registrationPrefixes cleanCallsign of
           None \<Rightarrow> None
         | Some prefix \<Rightarrow>
             if qualifies prefix cleanCallsign
             then Some (prefix @ ''-'' @ drop (length prefix) cleanCallsign)
             else None))"

section \<open>Values at run time\<close>

text \<open>
  \<open>AircraftInfo\<close> declares its fields \<open>string | null\<close>, but what the adapters
  copy out of a parsed response is whatever the response holds. A value is
  \<open>null\<close> (or \<open>undefined\<close>, which behaves alike everywhere here), a string, a
  number (only whether it is zero is ever looked at), a boolean, or an object
  or array, whose content is never read.
\<close>

datatype jsValue = JNull | JStr string | JNum int | JBool bool | JObject

fun truthyValue :: "jsValue \<Rightarrow> bool" where
  "truthyValue JNull = False"
| "truthyValue (JStr s) = (s \<noteq> [])"
| "truthyValue (JNum n) = (n \<noteq> 0)"
| "truthyValue (JBool b) = b"
| "truthyValue JObject = True"

text \<open>\<open>x || y\<close> and \<open>x || null\<close> on values.\<close>

definition orValue :: "jsValue \<Rightarrow> jsValue \<Rightarrow> jsValue" where
  "orValue x y = (if truthyValue x then x else y)"

definition orNull :: "jsValue \<Rightarrow> jsValue" where
  "orNull x = orValue x JNull"

text \<open>A query parameter, which is a string or \<open>null\<close>, as a value.\<close>

definition ofParam :: "string option \<Rightarrow> jsValue" where
  "ofParam x = (case x of None \<Rightarrow> JNull | Some s \<Rightarrow> JStr s)"

text \<open>
  \<open>getAircraftCategory\<close> called on a value: \<open>!model\<close> answers \<open>unknown\<close> for
  every falsy value; a string is classified; on any other truthy value
  \<open>model.toUpperCase\<close> is not a function and the call throws a \<open>TypeError\<close>.
\<close>

datatype thrown = TypeError

definition categoryOf :: "jsValue \<Rightarrow> thrown + string" where
  "categoryOf v =
     (if \<not> truthyValue v then Inr ''unknown''
      else case v of JStr m \<Rightarrow> Inr (getAircraftCategory (Some m)) | _ \<Rightarrow> Inl TypeError)"

section \<open>Records of the aircraft-info route\<close>

text \<open>\<open>interface AircraftInfo\<close>: nine fields.\<close>

record AircraftInfo =
  registration :: jsValue
  model :: jsValue
  manufacturer :: jsValue
  owner :: jsValue
  operator :: jsValue
  yearBuilt :: jsValue
  engineType :: jsValue
  category :: jsValue
  photoUrl :: jsValue

text \<open>
  \<open>Partial<AircraftInfo>\<close>, what one adapter returns: every key may be missing
  (\<open>None\<close>), or present with a value that may be \<open>null\<close> (\<open>Some JNull\<close>).
  The object \<open>{}\<close> is \<open>emptyPartial\<close>.
\<close>

record PartialInfo =
  p_registration :: "jsValue option"
  p_model :: "jsValue option"
  p_manufacturer :: "jsValue option"
  p_owner :: "jsValue option"
  p_operator :: "jsValue option"
  p_yearBuilt :: "jsValue option"
  p_engineType :: "jsValue option"
  p_category :: "jsValue option"
  p_photoUrl :: "jsValue option"

definition emptyPartial :: PartialInfo where
  "emptyPartial = \<lparr> p_registration = None, p_model = None, p_manufacturer = None,
     p_owner = None, p_operator = None, p_yearBuilt = None, p_engineType = None,
     p_category = None, p_photoUrl = None \<rparr>"

text \<open>Reading a key of a partial record: a missing key reads as \<open>undefined\<close>, which is falsy.\<close>

definition readKey :: "jsValue option \<Rightarrow> jsValue" where
  "readKey k = (case k of None \<Rightarrow> JNull | Some v \<Rightarrow> v)"

text \<open>One key of the object spread \<open>{ ...a, ...p }\<close>: a key present in \<open>p\<close> wins, whatever its value.\<close>

definition spreadKey :: "jsValue \<Rightarrow> jsValue option \<Rightarrow> jsValue" where
  "spreadKey old k = (case k of None \<Rightarrow> old | Some v \<Rightarrow> v)"

text \<open>\<open>{ ...aircraftInfo, ...p }\<close>\<close>

definition spread :: "AircraftInfo \<Rightarrow> PartialInfo \<Rightarrow> AircraftInfo" where
  "spread a p = \<lparr>
     registration = spreadKey (registration a) (p_registration p),
     model = spreadKey (model a) (p_model p),
     manufacturer = spreadKey (manufacturer a) (p_manufacturer p),
     owner = spreadKey (owner a) (p_owner p),
     operator = spreadKey (operator a) (p_operator p),
     yearBuilt = spreadKey (yearBuilt a) (p_yearBuilt p),
     engineType = spreadKey (engineType a) (p_engineType p),
     category = spreadKey (category a) (p_category p),
     photoUrl = spreadKey (photoUrl a) (p_photoUrl p) \<rparr>"

text \<open>\<open>{ ...aircraftInfo, ...p, photoUrl: aircraftInfo.photoUrl }\<close>\<close>

definition spreadKeepPhoto :: "AircraftInfo \<Rightarrow> PartialInfo \<Rightarrow> AircraftInfo" where
  "spreadKeepPhoto a p = (spread a p) \<lparr> photoUrl := photoUrl a \<rparr>"

text \<open>\<open>if (p.photoUrl) { aircraftInfo.photoUrl = p.photoUrl; }\<close>\<close>

definition takePhoto :: "AircraftInfo \<Rightarrow> PartialInfo \<Rightarrow> AircraftInfo" where
  "takePhoto a p =
     (if truthyValue (readKey (p_photoUrl p)) then a \<lparr> photoUrl := readKey (p_photoUrl p) \<rparr>
      else a)"

text \<open>The fields by name, to speak about every field but one.\<close>

datatype fieldName = Registration | Model | Manufacturer | Owner | Operator | YearBuilt
  | EngineType | Category | PhotoUrl

fun fieldValue :: "fieldName \<Rightarrow> AircraftInfo \<Rightarrow> jsValue" where
  "fieldValue Registration a = registration a"
| "fieldValue Model a = model a"
| "fieldValue Manufacturer a = manufacturer a"
| "fieldValue Owner a = owner a"
| "fieldValue Operator a = operator a"
| "fieldValue YearBuilt a = yearBuilt a"
| "fieldValue EngineType a = engineType a"
| "fieldValue Category a = category a"
| "fieldValue PhotoUrl a = photoUrl a"

fun fieldKey :: "fieldName \<Rightarrow> PartialInfo \<Rightarrow> jsValue option" where
  "fieldKey Registration p = p_registration p"
| "fieldKey Model p = p_model p"
| "fieldKey Manufacturer p = p_manufacturer p"
| "fieldKey Owner p = p_owner p"
| "fieldKey Operator p = p_operator p"
| "fieldKey YearBuilt p = p_yearBuilt p"
| "fieldKey EngineType p = p_engineType p"
| "fieldKey Category p = p_category p"
| "fieldKey PhotoUrl p = p_photoUrl p"

section \<open>What the providers answer\<close>

text \<open>
  A parsed JSON object is the list of its properties with their values.
  Reading a property that is missing gives \<open>undefined\<close>, which every adapter
  treats like \<open>null\<close>.
\<close>

type_synonym json_object = "(string \<times> jsValue) list"

definition getProp :: "json_object \<Rightarrow> string \<Rightarrow> jsValue" where
  "getProp obj k = (case map_of obj k of None \<Rightarrow> JNull | Some v \<Rightarrow> v)"

text \<open>
  The outcome of one \<open>fetch\<close> (or one database query): \<open>NoResponse\<close> when the call
  throws (network error, abort after the timeout, a body that does not parse, a
  missing client configuration), \<open>NotOk\<close> when an answer arrives that is not a
  success (\<open>!response.ok\<close>, or \<open>error\<close> set by the database client), \<open>Ok body\<close>
  otherwise.
\<close>

datatype 'a fetched = NoResponse | NotOk | Ok 'a

text \<open>One entry of \<open>photosData.photos\<close>: \<open>thumbnail_large?.src\<close> and \<open>thumbnail?.src\<close>.\<close>

record photo =
  thumbnail_large_src :: jsValue
  thumbnail_src :: jsValue

text \<open>The body of the Planespotters aircraft endpoint: \<open>data.error\<close> and \<open>data.aircraft\<close>.\<close>

record planespottersAircraft =
  ps_error :: bool
  ps_aircraft :: "json_object list"

text \<open>
  The outside world during one resolution. Each provider answers a call from
  its argument and from the number of provider calls the resolution has made
  before it, so two calls of one provider in one resolution may differ. The
  argument of OpenSky is the query parameter \<open>icao24\<close>; the other providers are
  asked with a registration, which may have come out of a response.
\<close>

record providers =
  openskyApi :: "nat \<Rightarrow> string \<Rightarrow> json_object option fetched"
  planespottersPhotos :: "nat \<Rightarrow> jsValue \<Rightarrow> photo list fetched"
  planespottersAircraftApi :: "nat \<Rightarrow> jsValue \<Rightarrow> planespottersAircraft fetched"
  supabaseDb :: "nat \<Rightarrow> jsValue \<Rightarrow> json_object option fetched"
  flightawareApi :: "nat \<Rightarrow> jsValue \<Rightarrow> json_object fetched"
  aviationstackApi :: "nat \<Rightarrow> jsValue \<Rightarrow> json_object list fetched"
  FLIGHTAWARE_API_KEY :: "string option"
  AVIATIONSTACK_API_KEY :: "string option"

section \<open>Provider adapters\<close>

text \<open>
  \<open>getOpenSkyInfo\<close>: a thrown error, a status that is not ok, a falsy body and a
  body without keys all give \<open>{}\<close>; otherwise seven keys, each \<open>data.x || null\<close>.
\<close>

definition getOpenSkyInfo :: "json_object option fetched \<Rightarrow> PartialInfo" where
  "getOpenSkyInfo response =
     (case response of
        NoResponse \<Rightarrow> emptyPartial
      | NotOk \<Rightarrow> emptyPartial
      | Ok None \<Rightarrow> emptyPartial
      | Ok (Some data) \<Rightarrow>
          if data = [] then emptyPartial
          else emptyPartial \<lparr>
            p_registration := Some (orNull (getProp data ''registration'')),
            p_model := Some (orNull (getProp data ''model'')),
            p_manufacturer := Some (orNull (getProp data ''manufacturerName'')),
            p_owner := Some (orNull (getProp data ''owner'')),
            p_operator := Some (orNull (getProp data ''operator'')),
            p_yearBuilt := Some (orNull (getProp data ''yearBuilt'')),
            p_engineType := Some (orNull (getProp data ''engineType'')) \<rparr>)"

text \<open>
  \<open>getPlanespottersInfo\<close>: when the photo request throws the result is \<open>{}\<close>.
  Otherwise \<open>photoUrl\<close> is the first photo's large thumbnail, else its
  thumbnail, else \<open>null\<close>; the aircraft request runs in its own \<open>try\<close>, and the
  result always has the key \<open>photoUrl\<close>.
\<close>

definition getPlanespottersInfo ::
  "photo list fetched \<Rightarrow> planespottersAircraft fetched \<Rightarrow> PartialInfo" where
  "getPlanespottersInfo photosResponse aircraftResponse =
     (case photosResponse of
        NoResponse \<Rightarrow> emptyPartial
      | _ \<Rightarrow>
          let photoUrl =
                (case photosResponse of
                   Ok (firstPhoto # _) \<Rightarrow>
                     orValue (thumbnail_large_src firstPhoto) (orNull (thumbnail_src firstPhoto))
                 | _ \<Rightarrow> JNull);
              aircraftInfo =
                (case aircraftResponse of
                   Ok data \<Rightarrow>
                     (case ps_aircraft data of
                        aircraft # _ \<Rightarrow>
                          if ps_error data then emptyPartial
                          else emptyPartial \<lparr>
                            p_model := Some (orNull (getProp aircraft ''model'')),
                            p_manufacturer := Some (orNull (getProp aircraft ''manufacturer'')),
                            p_owner := Some (orNull (getProp aircraft ''owner'')),
                            p_operator := Some (orNull (getProp aircraft ''operator'')),
                            p_yearBuilt := Some (orNull (getProp aircraft ''yearBuilt'')) \<rparr>
                      | [] \<Rightarrow> emptyPartial)
                 | _ \<Rightarrow> emptyPartial)
          in aircraftInfo \<lparr> p_photoUrl := Some photoUrl \<rparr>)"

text \<open>
  \<open>getSupabaseAircraftInfo\<close>: \<open>{}\<close> on a thrown error, a query error or no row;
  otherwise \<open>registration\<close> is copied as it is and the other six keys fall back
  to \<open>null\<close>.
\<close>

definition getSupabaseAircraftInfo :: "json_object option fetched \<Rightarrow> PartialInfo" where
  "getSupabaseAircraftInfo response =
     (case response of
        Ok (Some data) \<Rightarrow>
          emptyPartial \<lparr>
            p_registration := Some (getProp data ''registration''),
            p_model := Some (orValue (getProp data ''model'') (orNull (getProp data ''type_code''))),
            p_manufacturer := Some (orValue (getProp data ''manufacturer_name'')
                                      (orNull (getProp data ''manufacturer_icao''))),
            p_owner := Some (orNull (getProp data ''owner'')),
            p_operator := Some (orNull (getProp data ''operator'')),
            p_yearBuilt := Some (orNull (getProp data ''built'')),
            p_engineType := Some (orNull (getProp data ''engines'')) \<rparr>
      | _ \<Rightarrow> emptyPartial)"

text \<open>\<open>getFlightAwareInfo\<close>: \<open>{}\<close> without an API key or on any failure.\<close>

definition getFlightAwareInfo :: "string option \<Rightarrow> json_object fetched \<Rightarrow> PartialInfo" where
  "getFlightAwareInfo apiKey response =
     (if \<not> truthy apiKey then emptyPartial
      else case response of
        Ok data \<Rightarrow>
          emptyPartial \<lparr>
            p_model := Some (orNull (getProp data ''aircraft_type'')),
            p_manufacturer := Some (orNull (getProp data ''manufacturer'')),
            p_owner := Some (orNull (getProp data ''owner'')),
            p_operator := Some (orNull (getProp data ''operator'')),
            p_yearBuilt := Some (orNull (getProp data ''year_built'')) \<rparr>
      | _ \<Rightarrow> emptyPartial)"

text \<open>\<open>getAviationStackInfo\<close>: \<open>{}\<close> without an API key, on any failure, or on an empty \<open>data.data\<close>.\<close>

definition getAviationStackInfo :: "string option \<Rightarrow> json_object list fetched \<Rightarrow> PartialInfo" where
  "getAviationStackInfo apiKey response =
     (if \<not> truthy apiKey then emptyPartial
      else case response of
        Ok (aircraft # _) \<Rightarrow>
          emptyPartial \<lparr>
            p_model := Some (orNull (getProp aircraft ''airplane_name'')),
            p_manufacturer := Some (orNull (getProp aircraft ''manufacturer'')),
            p_yearBuilt := Some (orNull (getProp aircraft ''year_built'')) \<rparr>
      | _ \<Rightarrow> emptyPartial)"

section \<open>The GET handler of the aircraft-info route\<close>

text \<open>The query parameters \<open>icao24\<close>, \<open>registration\<close> and \<open>callsign\<close>, each \<open>null\<close> when not given.\<close>

record request =
  icao24 :: "string option"
  registrationParam :: "string option"
  callsign :: "string option"

text \<open>
  What one resolution does is kept beside the record it builds: for each adapter
  call, which adapter with which argument, the value of \<open>aircraftInfo\<close> when the
  call was made, what the adapter returned, and the value of \<open>aircraftInfo\<close>
  after the handler merged it.
\<close>

datatype providerCall =
    OpenSkyCall string
  | PlanespottersCall jsValue
  | SupabaseCall jsValue
  | FlightAwareCall jsValue
  | AviationStackCall jsValue

record mergeStep =
  provider :: providerCall
  before :: AircraftInfo
  contribution :: PartialInfo
  after :: AircraftInfo

record resolution =
  info :: AircraftInfo
  steps :: "mergeStep list"

definition recordStep ::
  "resolution \<Rightarrow> providerCall \<Rightarrow> PartialInfo \<Rightarrow> AircraftInfo \<Rightarrow> resolution" where
  "recordStep r call p a =
     \<lparr> info = a,
       steps = steps r @ [\<lparr> provider = call, before = info r, contribution = p, after = a \<rparr>] \<rparr>"

definition callOpenSky :: "providers \<Rightarrow> resolution \<Rightarrow> string \<Rightarrow> PartialInfo" where
  "callOpenSky env r icao = getOpenSkyInfo (openskyApi env (length (steps r)) icao)"

definition callPlanespotters :: "providers \<Rightarrow> resolution \<Rightarrow> jsValue \<Rightarrow> PartialInfo" where
  "callPlanespotters env r reg =
     getPlanespottersInfo (planespottersPhotos env (length (steps r)) reg)
       (planespottersAircraftApi env (length (steps r)) reg)"

definition callSupabase :: "providers \<Rightarrow> resolution \<Rightarrow> jsValue \<Rightarrow> PartialInfo" where
  "callSupabase env r reg = getSupabaseAircraftInfo (supabaseDb env (length (steps r)) reg)"

definition callFlightAware :: "providers \<Rightarrow> resolution \<Rightarrow> jsValue \<Rightarrow> PartialInfo" where
  "callFlightAware env r reg =
     getFlightAwareInfo (FLIGHTAWARE_API_KEY env) (flightawareApi env (length (steps r)) reg)"

definition callAviationStack :: "providers \<Rightarrow> resolution \<Rightarrow> jsValue \<Rightarrow> PartialInfo" where
  "callAviationStack env r reg =
     getAviationStackInfo (AVIATIONSTACK_API_KEY env) (aviationstackApi env (length (steps r)) reg)"

definition nullInfo :: AircraftInfo where
  "nullInfo = \<lparr> registration = JNull, model = JNull, manufacturer = JNull, owner = JNull,
     operator = JNull, yearBuilt = JNull, engineType = JNull, category = JNull,
     photoUrl = JNull \<rparr>"

text \<open>
  \<open>if (icao24) { ... }\<close> up to the early-return test: OpenSky, then Supabase when
  OpenSky gave a registration but no model.
\<close>

definition primaryLookup :: "providers \<Rightarrow> string \<Rightarrow> resolution \<Rightarrow> resolution" where
  "primaryLookup env icao r =
     (let openskyInfo = callOpenSky env r icao;
          r1 = recordStep r (OpenSkyCall icao) openskyInfo (spread (info r) openskyInfo)
      in if \<not> truthyValue (readKey (p_model openskyInfo)) \<and>
            truthyValue (readKey (p_registration openskyInfo))
         then
           (let reg = readKey (p_registration openskyInfo);
                supabaseInfo = callSupabase env r1 reg
            in recordStep r1 (SupabaseCall reg) supabaseInfo (spread (info r1) supabaseInfo))
         else r1)"

text \<open>
  \<open>aircraftInfo.category = getAircraftCategory(aircraftInfo.model)\<close>, which
  throws when the model is a truthy value that is not a string.
\<close>

definition setCategory :: "AircraftInfo \<Rightarrow> thrown + AircraftInfo" where
  "setCategory a =
     (case categoryOf (model a) of
        Inl e \<Rightarrow> Inl e
      | Inr c \<Rightarrow> Inr (a \<lparr> category := JStr c \<rparr>))"

text \<open>
  The early return: the category is set, then Planespotters is asked for a
  photo when a registration is known; only its \<open>photoUrl\<close> is used. When the
  classifier throws, no further provider is called.
\<close>

definition earlyReturn :: "providers \<Rightarrow> resolution \<Rightarrow> thrown + resolution" where
  "earlyReturn env r =
     (case setCategory (info r) of
        Inl e \<Rightarrow> Inl e
      | Inr a \<Rightarrow>
          Inr (let r1 = r \<lparr> info := a \<rparr>
               in if truthyValue (registration (info r1)) then
                    (let reg = registration (info r1);
                         planespottersInfo = callPlanespotters env r1 reg
                     in recordStep r1 (PlanespottersCall reg) planespottersInfo
                          (takePhoto (info r1) planespottersInfo))
                  else r1))"

text \<open>\<open>if (targetRegistration) { ... }\<close>: Planespotters, Supabase, and the two registries that have a key.\<close>

definition lookupByRegistration :: "providers \<Rightarrow> jsValue \<Rightarrow> resolution \<Rightarrow> resolution" where
  "lookupByRegistration env targetRegistration r =
     (let planespottersInfo = callPlanespotters env r targetRegistration;
          r1 = recordStep r (PlanespottersCall targetRegistration) planespottersInfo
                 (spreadKeepPhoto (takePhoto (info r) planespottersInfo) planespottersInfo);
          supabaseInfo = callSupabase env r1 targetRegistration;
          r2 = recordStep r1 (SupabaseCall targetRegistration) supabaseInfo
                 (spreadKeepPhoto (info r1) supabaseInfo);
          r3 = (if truthy (FLIGHTAWARE_API_KEY env) then
                  (let flightAwareInfo = callFlightAware env r2 targetRegistration
                   in recordStep r2 (FlightAwareCall targetRegistration) flightAwareInfo
                        (spreadKeepPhoto (info r2) flightAwareInfo))
                else r2)
      in if truthy (AVIATIONSTACK_API_KEY env) then
           (let aviationStackInfo = callAviationStack env r3 targetRegistration
            in recordStep r3 (AviationStackCall targetRegistration) aviationStackInfo
                 (spreadKeepPhoto (info r3) aviationStackInfo))
         else r3)"

text \<open>
  The part after the early return, up to the category: the target
  registration, the callsign branch and the lookups by registration. The
  result carries \<open>targetRegistration\<close>, which the response reports in
  \<open>sources\<close>.
\<close>

definition fullFallback ::
  "providers \<Rightarrow> request \<Rightarrow> resolution \<Rightarrow> resolution \<times> jsValue" where
  "fullFallback env req r =
     (let targetRegistration = orValue (registration (info r)) (ofParam (registrationParam req));
          (r1, targetRegistration1) =
            (if \<not> truthyValue targetRegistration \<and> truthy (callsign req) then
               (let extractedRegistration = extractRegistrationFromCallsign (callsign req)
                in if truthy extractedRegistration then
                     (r \<lparr> info := (info r) \<lparr> registration := ofParam extractedRegistration \<rparr> \<rparr>,
                      ofParam extractedRegistration)
                   else
                     (let planespottersInfo = callPlanespotters env r (ofParam (callsign req))
                      in (recordStep r (PlanespottersCall (ofParam (callsign req)))
                            planespottersInfo (takePhoto (info r) planespottersInfo),
                          targetRegistration)))
             else (r, targetRegistration))
      in (if truthyValue targetRegistration1
          then lookupByRegistration env targetRegistration1 r1 else r1,
          targetRegistration1))"

text \<open>The in-memory response cache \<open>apiCache\<close> and its lifetime of five minutes, in milliseconds.\<close>

record cacheEntry =
  data :: AircraftInfo
  timestamp :: int

type_synonym apiCache = "string \<rightharpoonup> cacheEntry"

definition CACHE_DURATION :: int where
  "CACHE_DURATION = 5 * 60 * 1000"

text \<open>
  The two readings of \<open>Date.now()\<close> a request makes: in the cache test, and in
  \<open>apiCache.set\<close> after the adapters have answered.
\<close>

record clock =
  checkedAt :: int
  storedAt :: int

record sources =
  opensky :: bool
  planespotters :: bool
  supabase :: bool
  flightaware :: bool
  aviationstack :: bool

text \<open>
  The three answers of the handler: status 400 with
  \<open>ICAO24 or registration is required\<close>, status 500 with
  \<open>Failed to fetch aircraft information\<close> from the outer \<open>catch\<close>, and the success
  body with \<open>data\<close>, \<open>cached\<close> and \<open>sources\<close>.
\<close>

datatype response =
    BadRequest
  | ServerError
  | Success AircraftInfo bool sources

record outcome =
  response :: response
  cacheAfter :: apiCache
  trace :: "mergeStep list"

definition cacheKeyOf :: "request \<Rightarrow> string" where
  "cacheKeyOf req = the (or_else (icao24 req) (or_else (registrationParam req) (Some [])))"

text \<open>
  The body of the \<open>try\<close> block, run on a cache miss. Every adapter catches what
  it throws; the one call that can throw here is the classifier, at the start
  of the early return or at the end of the full path, and the outer \<open>catch\<close>
  then answers status 500 without storing anything. The provider calls made
  before the throw stay in the trace.
\<close>

definition resolveUncached :: "providers \<Rightarrow> clock \<Rightarrow> apiCache \<Rightarrow> request \<Rightarrow> outcome" where
  "resolveUncached env clk cache req =
     (let cacheKey = cacheKeyOf req;
          r0 = \<lparr> info = nullInfo, steps = [] \<rparr>;
          r1 = (if truthy (icao24 req) then primaryLookup env (the (icao24 req)) r0 else r0)
      in if truthy (icao24 req) \<and>
            (truthyValue (registration (info r1)) \<or> truthyValue (model (info r1)))
         then
           (case earlyReturn env r1 of
              Inl e \<Rightarrow> \<lparr> response = ServerError, cacheAfter = cache, trace = steps r1 \<rparr>
            | Inr r2 \<Rightarrow>
                \<lparr> response = Success (info r2) False
                     \<lparr> opensky = True, planespotters = truthyValue (photoUrl (info r2)),
                       supabase = truthyValue (registration (info r2)),
                       flightaware = False, aviationstack = False \<rparr>,
                  cacheAfter = cache(cacheKey \<mapsto> \<lparr> data = info r2, timestamp = storedAt clk \<rparr>),
                  trace = steps r2 \<rparr>)
         else
           (let (r2, targetRegistration) = fullFallback env req r1
            in case setCategory (info r2) of
                 Inl e \<Rightarrow> \<lparr> response = ServerError, cacheAfter = cache, trace = steps r2 \<rparr>
               | Inr a \<Rightarrow>
                   \<lparr> response = Success a False
                        \<lparr> opensky = truthy (icao24 req),
                          planespotters = truthyValue targetRegistration,
                          supabase = truthyValue targetRegistration,
                          flightaware = truthy (FLIGHTAWARE_API_KEY env),
                          aviationstack = truthy (AVIATIONSTACK_API_KEY env) \<rparr>,
                     cacheAfter = cache(cacheKey \<mapsto> \<lparr> data = a, timestamp = storedAt clk \<rparr>),
                     trace = steps r2 \<rparr>))"

text \<open>\<open>GET\<close>: the identifier test, the cache test, then the resolution.\<close>

definition GET :: "providers \<Rightarrow> clock \<Rightarrow> apiCache \<Rightarrow> request \<Rightarrow> outcome" where
  "GET env clk cache req =
     (if \<not> truthy (icao24 req) \<and> \<not> truthy (registrationParam req) then
        \<lparr> response = BadRequest, cacheAfter = cache, trace = [] \<rparr>
      else
        (case cache (cacheKeyOf req) of
           None \<Rightarrow> resolveUncached env clk cache req
         | Some cached \<Rightarrow>
             if checkedAt clk - timestamp cached < CACHE_DURATION then
               \<lparr> response = Success (data cached) True
                    \<lparr> opensky = truthy (icao24 req),
                      planespotters = truthy (registrationParam req),
                      supabase = truthy (registrationParam req),
                      flightaware = truthy (FLIGHTAWARE_API_KEY env),
                      aviationstack = truthy (AVIATIONSTACK_API_KEY env) \<rparr>,
                  cacheAfter = cache, trace = [] \<rparr>
             else resolveUncached env clk cache req))"

section \<open>The bulk-dataset adapter\<close>

text \<open>
  \<open>s.split(sep)\<close> for a separator that is not empty: the pieces between the
  occurrences of \<open>sep\<close>, found from left to right without overlap.
\<close>

function splitFrom :: "string \<Rightarrow> string \<Rightarrow> string \<Rightarrow> string list" where
  "splitFrom sep piece [] = [rev piece]"
| "splitFrom sep piece (c # cs) =
     (if sep \<noteq> [] \<and> startsWith (c # cs) sep
      then rev piece # splitFrom sep [] (drop (length sep) (c # cs))
      else splitFrom sep (c # piece) cs)"
  by pat_completeness auto
termination
  by (relation "measure (\<lambda>(sep, piece, s). length s)") auto

definition splitOn :: "string \<Rightarrow> string \<Rightarrow> string list" where
  "splitOn sep s = splitFrom sep [] s"

text \<open>\<open>v.replace(/"/g, '')\<close>\<close>

definition stripQuotes :: "string \<Rightarrow> string" where
  "stripQuotes v = filter (\<lambda>c. c \<noteq> CHR 0x22) v"

text \<open>\<open>line.split('","').map(v => v.replace(/"/g, ''))\<close>\<close>

definition parseLine :: "string \<Rightarrow> string list" where
  "parseLine line = map stripQuotes (splitOn [CHR 0x22, CHR '','', CHR 0x22] line)"

text \<open>\<open>a || b\<close> and \<open>a || null\<close> on strings: the empty string is falsy.\<close>

definition strOr :: "string \<Rightarrow> string \<Rightarrow> string" where
  "strOr a b = (if a \<noteq> [] then a else b)"

definition strOrNull :: "string \<Rightarrow> jsValue" where
  "strOrNull a = (if a \<noteq> [] then JStr a else JNull)"

text \<open>The record built from a matching row; all nine keys are present.\<close>

definition rowInfo :: "string list \<Rightarrow> PartialInfo" where
  "rowInfo values =
     (let reg = values ! 1;
          manufacturerIcao = values ! 2;
          manufacturerName = values ! 3;
          model = values ! 4;
          typeCode = values ! 5;
          operator = values ! 9;
          owner = values ! 13;
          built = values ! 18;
          manufacturer = strOr manufacturerName manufacturerIcao
      in \<lparr> p_registration = Some (JStr reg),
           p_model = Some (strOrNull (strOr model typeCode)),
           p_manufacturer = Some (strOrNull manufacturer),
           p_owner = Some (strOrNull owner),
           p_operator = Some (strOrNull operator),
           p_yearBuilt = Some (strOrNull built),
           p_engineType = Some JNull,
           p_category = Some JNull,
           p_photoUrl = Some JNull \<rparr>)"

text \<open>
  The loop over the lines after the header: blank lines and lines with fewer
  than twenty values are passed over; the first line whose second value is the
  registration asked for ends the search.
\<close>

fun scanLines :: "string \<Rightarrow> string list \<Rightarrow> PartialInfo option" where
  "scanLines wantedRegistration [] = None"
| "scanLines wantedRegistration (line # rest) =
     (if trim line = [] then scanLines wantedRegistration rest
      else
        (let values = parseLine line in
         if 20 \<le> length values \<and> values ! 1 = wantedRegistration then Some (rowInfo values)
         else scanLines wantedRegistration rest))"

record csvCacheEntry =
  csvData :: PartialInfo
  csvTimestamp :: int

type_synonym openskyCSVCache = "string \<rightharpoonup> csvCacheEntry"

definition OPENSKY_CSV_CACHE_DURATION :: int where
  "OPENSKY_CSV_CACHE_DURATION = 24 * 60 * 60 * 1000"

text \<open>
  \<open>getOpenSkyCSVInfo\<close>: a fresh cache entry is returned as it is; otherwise the
  dataset is fetched, split at line feeds, and searched from the second line.
  Only a row that was found is stored in the cache.
\<close>

definition getOpenSkyCSVInfo ::
  "string fetched \<Rightarrow> clock \<Rightarrow> openskyCSVCache \<Rightarrow> string \<Rightarrow> PartialInfo \<times> openskyCSVCache" where
  "getOpenSkyCSVInfo csvResponse clk cache wantedRegistration =
     (let search =
            (case csvResponse of
               Ok csvText \<Rightarrow>
                 (case scanLines wantedRegistration (drop 1 (splitOn [CHR 0x0A] csvText)) of
                    Some aircraftInfo \<Rightarrow>
                      (aircraftInfo,
                       cache(wantedRegistration \<mapsto>
                         \<lparr> csvData = aircraftInfo, csvTimestamp = storedAt clk \<rparr>))
                  | None \<Rightarrow> (emptyPartial, cache))
             | _ \<Rightarrow> (emptyPartial, cache))
      in case cache wantedRegistration of
           None \<Rightarrow> search
         | Some cached \<Rightarrow>
             if checkedAt clk - csvTimestamp cached < OPENSKY_CSV_CACHE_DURATION
             then (csvData cached, cache)
             else search)"

section \<open>Observing one resolution\<close>

fun isPlanespottersCall :: "providerCall \<Rightarrow> bool" where
  "isPlanespottersCall (PlanespottersCall reg) = True"
| "isPlanespottersCall call = False"

text \<open>
  The values of \<open>aircraftInfo.photoUrl\<close> in the order of time: before and after
  each provider call, and last in the record the handler returns.
\<close>

definition photoTimeline :: "mergeStep list \<Rightarrow> jsValue list" where
  "photoTimeline ss = concat (map (\<lambda>s. [photoUrl (before s), photoUrl (after s)]) ss)"

definition photoHistory :: "outcome \<Rightarrow> jsValue list" where
  "photoHistory out =
     photoTimeline (trace out) @
     (case response out of Success d c s \<Rightarrow> [photoUrl d] | _ \<Rightarrow> [])"

text \<open>A list of values in which a value that is not \<open>null\<close> is followed only by itself.\<close>

fun sticky :: "jsValue list \<Rightarrow> bool" where
  "sticky [] = True"
| "sticky (x # xs) = ((x \<noteq> JNull \<longrightarrow> (\<forall>y \<in> set xs. y = x)) \<and> sticky xs)"

definition photoKept :: "resolution \<Rightarrow> bool" where
  "photoKept r = sticky (photoTimeline (steps r) @ [photoUrl (info r)])"

text \<open>
  What one provider call does to the fields other than \<open>photoUrl\<close>: the object
  spread of what the provider returned, or nothing.
\<close>

definition spreadsFields :: "mergeStep \<Rightarrow> bool" where
  "spreadsFields s =
     (\<forall>f. f \<noteq> PhotoUrl \<longrightarrow>
        fieldValue f (after s) =
          spreadKey (fieldValue f (before s)) (fieldKey f (contribution s)))"

definition keepsFields :: "mergeStep \<Rightarrow> bool" where
  "keepsFields s = (\<forall>f. f \<noteq> PhotoUrl \<longrightarrow> fieldValue f (after s) = fieldValue f (before s))"

text \<open>
  The provider calls of one resolution, as the handler orders and merges them:
  every call but the last is merged by spread, and a Planespotters call that is
  not the last is followed by the database lookup for the same registration;
  a last call is merged by spread unless it is a Planespotters call, whose
  photo alone is then used.
\<close>

fun mergedAsWritten :: "mergeStep list \<Rightarrow> bool" where
  "mergedAsWritten [] = True"
| "mergedAsWritten [s] =
     (if isPlanespottersCall (provider s) then keepsFields s else spreadsFields s)"
| "mergedAsWritten (s # t # ss) =
     (spreadsFields s \<and>
      (\<forall>reg. provider s = PlanespottersCall reg \<longrightarrow> provider t = SupabaseCall reg) \<and>
      mergedAsWritten (t # ss))"

text \<open>A resolution to which further provider calls may be added: its last call is no Planespotters call.\<close>

definition openForCalls :: "mergeStep list \<Rightarrow> bool" where
  "openForCalls ss =
     (mergedAsWritten ss \<and> (ss \<noteq> [] \<longrightarrow> \<not> isPlanespottersCall (provider (last ss))))"


section \<open>Failing providers\<close>



section \<open>Example worlds and requests\<close>

text \<open>A world in which every provider fails and no registry key is configured.\<close>

definition silentWorld :: providers where
  "silentWorld = \<lparr>
     openskyApi = (\<lambda>n a. NoResponse),
     planespottersPhotos = (\<lambda>n a. NotOk),
     planespottersAircraftApi = (\<lambda>n a. NoResponse),
     supabaseDb = (\<lambda>n a. NotOk),
     flightawareApi = (\<lambda>n a. NoResponse),
     aviationstackApi = (\<lambda>n a. NoResponse),
     FLIGHTAWARE_API_KEY = None,
     AVIATIONSTACK_API_KEY = None \<rparr>"

text \<open>
  OpenSky knows registration, manufacturer and owner but no model; the
  database row for the registration has a model and another spelling of the
  manufacturer, and no owner.
\<close>

definition fleetWorld :: providers where
  "fleetWorld = silentWorld \<lparr>
     openskyApi := (\<lambda>n a. Ok (Some [(''registration'', JStr ''SP-LRD''),
                                     (''manufacturerName'', JStr ''Boeing''),
                                     (''owner'', JStr ''LOT Polish Airlines'')])),
     supabaseDb := (\<lambda>n a. Ok (Some [(''registration'', JStr ''SP-LRD''),
                                     (''model'', JStr ''737-800''),
                                     (''manufacturer_name'', JStr ''BOEING CO'')])) \<rparr>"

text \<open>
  Planespotters has a photo and an aircraft record with an owner; the database
  and FlightAware (with a key) answer too.
\<close>

definition photoWorld :: providers where
  "photoWorld = silentWorld \<lparr>
     planespottersPhotos :=
       (\<lambda>n a. Ok [\<lparr> thumbnail_large_src = JStr ''https://img.example/large.jpg'',
                      thumbnail_src = JStr ''https://img.example/small.jpg'' \<rparr>]),
     planespottersAircraftApi :=
       (\<lambda>n a. Ok \<lparr> ps_error = False, ps_aircraft = [[(''owner'', JStr ''LOT'')]] \<rparr>),
     supabaseDb := (\<lambda>n a. Ok (Some [(''registration'', JStr ''SP-LRD''),
                                     (''model'', JStr ''737-800'')])),
     flightawareApi := (\<lambda>n a. Ok [(''aircraft_type'', JStr ''B738'')]),
     FLIGHTAWARE_API_KEY := Some ''key'' \<rparr>"

text \<open>The fleet world in which Planespotters also has a photo and an aircraft record with an owner.\<close>

definition spottedFleetWorld :: providers where
  "spottedFleetWorld = fleetWorld \<lparr>
     planespottersPhotos :=
       (\<lambda>n a. Ok [\<lparr> thumbnail_large_src = JStr ''https://img.example/large.jpg'',
                      thumbnail_src = JStr ''https://img.example/small.jpg'' \<rparr>]),
     planespottersAircraftApi :=
       (\<lambda>n a. Ok \<lparr> ps_error = False, ps_aircraft = [[(''owner'', JStr ''LOT'')]] \<rparr>) \<rparr>"

text \<open>OpenSky answers with a model that is a number, not a string.\<close>

definition numericModelWorld :: providers where
  "numericModelWorld = silentWorld \<lparr>
     openskyApi := (\<lambda>n a. Ok (Some [(''registration'', JStr ''SP-LRD''),
                                     (''model'', JNum 737)])) \<rparr>"

definition byIcao :: request where
  "byIcao = \<lparr> icao24 = Some ''48ae03'', registrationParam = None, callsign = None \<rparr>"

definition byRegistration :: request where
  "byRegistration = \<lparr> icao24 = None, registrationParam = Some ''SP-LRD'', callsign = None \<rparr>"

definition byCallsign :: request where
  "byCallsign = \<lparr> icao24 = None, registrationParam = None, callsign = Some ''SPLRD'' \<rparr>"

definition firstClock :: clock where
  "firstClock = \<lparr> checkedAt = 1000, storedAt = 1500 \<rparr>"

definition secondClock :: clock where
  "secondClock = \<lparr> checkedAt = 60000, storedAt = 60500 \<rparr>"

section \<open>Example datasets\<close>

text \<open>\<open>parts.join(sep)\<close>, to write datasets down.\<close>

fun joinWith :: "string \<Rightarrow> string list \<Rightarrow> string" where
  "joinWith sep [] = []"
| "joinWith sep [x] = x"
| "joinWith sep (x # y # ys) = x @ sep @ joinWith sep (y # ys)"

text \<open>
  One row in the format the adapter splits: every field in double quotes, the
  fields separated by commas.
\<close>

definition csvRow :: "string list \<Rightarrow> string" where
  "csvRow fs = [CHR 0x22] @ joinWith [CHR 0x22, CHR '','', CHR 0x22] fs @ [CHR 0x22]"

text \<open>
  Whether a line stops the search for a registration: it is not blank, splits
  into at least twenty values, and its second value is the registration.
\<close>

definition lineMatches :: "string \<Rightarrow> string \<Rightarrow> bool" where
  "lineMatches wantedRegistration line =
     (trim line \<noteq> [] \<and> 20 \<le> length (parseLine line) \<and>
      parseLine line ! 1 = wantedRegistration)"

text \<open>A header row, and the fields of aircraft with at least twenty columns.\<close>

definition exampleHeader :: string where
  "exampleHeader = csvRow [''icao24'', ''registration'', ''manufacturericao'',
     ''manufacturername'', ''model'', ''typecode'', ''serialnumber'', ''linenumber'',
     ''icaoaircrafttype'', ''operator'', ''operatorcallsign'', ''operatoricao'',
     ''operatoriata'', ''owner'', ''testreg'', ''registered'', ''reguntil'', ''status'',
     ''built'', ''firstflightdate'', ''seatconfiguration'', ''engines'', ''modes'', ''adsb'',
     ''acars'', ''notes'', ''categoryDescription'']"

definition exampleTail :: "string list" where
  "exampleTail = [''B738'', ''28372'', [], ''L2J'', ''LOT'', ''LOT'', ''LOT'', ''LO'',
     ''LOT Polish Airlines'', [], [], [], [], ''2010'', [], [], ''CFM56'',
     ''false'', ''false'', ''false'', [], []]"

definition exampleFields :: "string list" where
  "exampleFields = [''48ae03'', ''SP-LRD'', ''BOE'', ''Boeing'', ''737-800''] @ exampleTail"

text \<open>
  Lines that come before the wanted row: another aircraft, a blank line, and a
  row for the wanted registration that is too short to be read.
\<close>

definition earlierLines :: "string list" where
  "earlierLines =
     [csvRow ([''4b1805'', ''HB-JCL'', ''BCS'', ''Airbus'', ''A220-300''] @ exampleTail),
      '' '',
      csvRow [''48ae03'', ''SP-LRD'', ''BOE'', ''Boeing'', ''737-400'']]"

definition exampleDataset :: string where
  "exampleDataset =
     joinWith [CHR 0x0A] (exampleHeader # earlierLines @ [csvRow exampleFields, []])"

section \<open>Evaluation of the string functions and of the examples\<close>

lemmas string_defs = truthy_def toUpperCase_def toUpperChar_def trim_def isSpace_def

lemmas adapter_defs = getOpenSkyInfo_def getPlanespottersInfo_def getSupabaseAircraftInfo_def
  getFlightAwareInfo_def getAviationStackInfo_def callOpenSky_def callPlanespotters_def
  callSupabase_def callFlightAware_def callAviationStack_def

lemmas merge_defs = spread_def spreadKeepPhoto_def takePhoto_def spreadKey_def readKey_def
  emptyPartial_def nullInfo_def

lemmas example_defs = silentWorld_def fleetWorld_def photoWorld_def numericModelWorld_def
  byIcao_def byRegistration_def byCallsign_def firstClock_def secondClock_def

section \<open>The classifier on the scenarios of the specification\<close>

text \<open>
  Claim C3: of the five scenarios, four hold: \<open>ATR 72-600\<close> is Regional (A2),
  \<open>Cessna 172\<close> is Small (A1), \<open>AW139\<close> is Helicopter (B1), and \<open>null\<close> is
  \<open>unknown\<close>. The fifth does not: \<open>Boeing 777-300ER\<close> is classified \<open>unknown\<close>,
  not Heavy (A5). The Heavy rule looks for one of the substrings A350, A380,
  B747, B777, B787, B767 in the upper-cased model; \<open>BOEING 777-300ER\<close> contains
  none of them, nor a substring of any later rule, so only the designator form
  \<open>B777-300ER\<close> is Heavy. The comments of the function speak of all Boeing and
  Airbus aircraft, and the models the providers return are full names.
\<close>

theorem classifier_scenarios:
  "getAircraftCategory (Some ''Boeing 777-300ER'') = ''unknown'' \<and>
   getAircraftCategory (Some ''B777-300ER'') = ''A5'' \<and>
   getAircraftCategory (Some ''ATR 72-600'') = ''A2'' \<and>
   getAircraftCategory (Some ''Cessna 172'') = ''A1'' \<and>
   getAircraftCategory (Some ''AW139'') = ''B1'' \<and>
   getAircraftCategory None = ''unknown''"
  by (simp add: getAircraftCategory_def string_defs)

text \<open>
  The model of the documented example response, \<open>Boeing 737-800\<close>, which the
  documentation shows with category A3, is classified \<open>unknown\<close> as well.
\<close>

lemma documented_example_model_unclassified:
  "getAircraftCategory (Some ''Boeing 737-800'') = ''unknown''"
  by (simp add: getAircraftCategory_def string_defs)

section \<open>Registration from a callsign: the first qualifying table entry\<close>

lemma scanPrefixes_Cons:
  "scanPrefixes (p # ps) c =
     (if qualifies p c then Some (p @ ''-'' @ drop (length p) c) else scanPrefixes ps c)"
  by (simp add: qualifies_def Let_def)


declare scanPrefixes.simps(2) [simp del]

lemma scanPrefixes_Some_iff:
  "scanPrefixes ps c = Some r \<longleftrightarrow>
     (\<exists>pre p post. ps = pre @ p # post \<and> qualifies p c \<and> (\<forall>q \<in> set pre. \<not> qualifies q c) \<and>
        r = p @ ''-'' @ drop (length p) c)"
proof (induction ps)
  case Nil
  then show ?case by simp
next
  case (Cons a ps)
  show ?case
  proof (cases "qualifies a c")
    case True
    show ?thesis
    proof
      assume "scanPrefixes (a # ps) c = Some r"
      with True have "r = a @ ''-'' @ drop (length a) c" by (simp add: scanPrefixes_Cons)
      with True show "\<exists>pre p post. a # ps = pre @ p # post \<and> qualifies p c \<and>
          (\<forall>q \<in> set pre. \<not> qualifies q c) \<and> r = p @ ''-'' @ drop (length p) c"
        by (intro exI[of _ "[]"] exI[of _ a] exI[of _ ps]) simp
    next
      assume "\<exists>pre p post. a # ps = pre @ p # post \<and> qualifies p c \<and>
          (\<forall>q \<in> set pre. \<not> qualifies q c) \<and> r = p @ ''-'' @ drop (length p) c"
      then obtain pre p post where h: "a # ps = pre @ p # post" "qualifies p c"
        "\<forall>q \<in> set pre. \<not> qualifies q c" "r = p @ ''-'' @ drop (length p) c" by blast
      have "pre = []"
      proof (cases pre)
        case Nil then show ?thesis .
      next
        case (Cons x xs)
        with h(1) have "x = a" by simp
        with Cons h(3) True show ?thesis by simp
      qed
      with h(1) have "p = a" by simp
      with h(4) True show "scanPrefixes (a # ps) c = Some r" by (simp add: scanPrefixes_Cons)
    qed
  next
    case False
    have "(\<exists>pre p post. a # ps = pre @ p # post \<and> qualifies p c \<and>
          (\<forall>q \<in> set pre. \<not> qualifies q c) \<and> r = p @ ''-'' @ drop (length p) c)
       \<longleftrightarrow> (\<exists>pre p post. ps = pre @ p # post \<and> qualifies p c \<and>
          (\<forall>q \<in> set pre. \<not> qualifies q c) \<and> r = p @ ''-'' @ drop (length p) c)"
      (is "?L \<longleftrightarrow> ?R")
    proof
      assume ?L
      then obtain pre p post where h: "a # ps = pre @ p # post" "qualifies p c"
        "\<forall>q \<in> set pre. \<not> qualifies q c" "r = p @ ''-'' @ drop (length p) c" by blast
      from h(1,2) False obtain pre' where "pre = a # pre'" "ps = pre' @ p # post"
        by (cases pre) auto
      with h show ?R by auto
    next
      assume ?R
      then obtain pre p post where h: "ps = pre @ p # post" "qualifies p c"
        "\<forall>q \<in> set pre. \<not> qualifies q c" "r = p @ ''-'' @ drop (length p) c" by blast
      from h False show ?L
        by (intro exI[of _ "a # pre"] exI[of _ p] exI[of _ post]) simp
    qed
    with False Cons.IH show ?thesis by (simp add: scanPrefixes_Cons)
  qed
qed

lemma scanPrefixes_None_iff:
  "scanPrefixes ps c = None \<longleftrightarrow> (\<forall>p \<in> set ps. \<not> qualifies p c)"
  by (induction ps) (simp_all add: scanPrefixes_Cons)

lemmas extract_eval = extractRegistrationFromCallsign_def scanPrefixes.simps string_defs
  registrationPrefixes_def matchesAZ09_def isAZ09_def

text \<open>
  Claim C4, as the specification states it, has the longest matching prefix
  chosen. For the callsign \<open>DABC\<close> the table entries \<open>D\<close> and \<open>DA\<close> both match;
  the loop meets \<open>D\<close> first and answers \<open>D-ABC\<close>, where the longest match gives
  \<open>DA-BC\<close>.
\<close>

theorem extract_registration_not_longest_prefix:
  "extractRegistrationFromCallsign (Some ''DABC'') = Some ''D-ABC'' \<and>
   deriveRegistrationFromCallsign_spec (Some ''DABC'') = Some ''DA-BC''"
proof
  show "extractRegistrationFromCallsign (Some ''DABC'') = Some ''D-ABC''"
    by (simp add: extract_eval)
  show "deriveRegistrationFromCallsign_spec (Some ''DABC'') = Some ''DA-BC''"
    by code_simp
qed

text \<open>
  Claim C4, amended: the input is trimmed and upper-cased; the result is
  \<open>p-suffix\<close> for the first entry \<open>p\<close> of the table, in table order, that the
  callsign starts with and that leaves a suffix of one to three characters
  from A to Z and 0 to 9; it is \<open>null\<close> exactly when the input is \<open>null\<close> or
  empty or no table entry qualifies. \<open>SPLRD\<close> gives \<open>SP-LRD\<close> and \<open>SPLRD1\<close>
  gives \<open>null\<close>.
\<close>

theorem extract_registration_first_qualifying:
  "(extractRegistrationFromCallsign cs = Some r \<longleftrightarrow>
      truthy cs \<and>
      (\<exists>pre p post. registrationPrefixes = pre @ p # post \<and>
         qualifies p (toUpperCase (trim (the cs))) \<and>
         (\<forall>q \<in> set pre. \<not> qualifies q (toUpperCase (trim (the cs)))) \<and>
         r = p @ ''-'' @ drop (length p) (toUpperCase (trim (the cs))))) \<and>
   (extractRegistrationFromCallsign cs = None \<longleftrightarrow>
      \<not> truthy cs \<or>
      (\<forall>p \<in> set registrationPrefixes. \<not> qualifies p (toUpperCase (trim (the cs))))) \<and>
   extractRegistrationFromCallsign (Some ''SPLRD'') = Some ''SP-LRD'' \<and>
   extractRegistrationFromCallsign (Some ''SPLRD1'') = None"
proof (intro conjI)
  show "extractRegistrationFromCallsign cs = Some r \<longleftrightarrow>
      truthy cs \<and>
      (\<exists>pre p post. registrationPrefixes = pre @ p # post \<and>
         qualifies p (toUpperCase (trim (the cs))) \<and>
         (\<forall>q \<in> set pre. \<not> qualifies q (toUpperCase (trim (the cs)))) \<and>
         r = p @ ''-'' @ drop (length p) (toUpperCase (trim (the cs))))"
    by (cases "truthy cs")
       (simp_all add: extractRegistrationFromCallsign_def scanPrefixes_Some_iff)
  show "extractRegistrationFromCallsign cs = None \<longleftrightarrow>
      \<not> truthy cs \<or>
      (\<forall>p \<in> set registrationPrefixes. \<not> qualifies p (toUpperCase (trim (the cs))))"
    by (cases "truthy cs")
       (simp_all add: extractRegistrationFromCallsign_def scanPrefixes_None_iff)
  show "extractRegistrationFromCallsign (Some ''SPLRD'') = Some ''SP-LRD''"
    by (simp add: extract_eval)
  show "extractRegistrationFromCallsign (Some ''SPLRD1'') = None"
    by (simp add: extract_eval)
qed

theorem extract_registration_first_qualifying_witness:
  "extractRegistrationFromCallsign (Some ''dabcd '') = Some ''DA-BCD'' \<and>
   (\<exists>p. qualifies p ''DABCD'' \<and> ''DA-BCD'' = p @ ''-'' @ drop (length p) ''DABCD'')"
proof -
  have e: "extractRegistrationFromCallsign (Some ''dabcd '') = Some ''DA-BCD''"
    by (simp add: extract_eval)
  have c: "toUpperCase (trim (the (Some ''dabcd ''))) = ''DABCD''"
    by (simp add: string_defs)
  from extract_registration_first_qualifying [of "Some ''dabcd ''" "''DA-BCD''"] e
  have "\<exists>pre p post. registrationPrefixes = pre @ p # post \<and>
         qualifies p (toUpperCase (trim (the (Some ''dabcd '')))) \<and>
         (\<forall>q \<in> set pre. \<not> qualifies q (toUpperCase (trim (the (Some ''dabcd ''))))) \<and>
         ''DA-BCD'' = p @ ''-'' @ drop (length p) (toUpperCase (trim (the (Some ''dabcd ''))))"
    by blast
  then have "\<exists>p. qualifies p ''DABCD'' \<and> ''DA-BCD'' = p @ ''-'' @ drop (length p) ''DABCD''"
    unfolding c by blast
  with e show ?thesis by simp
qed

section \<open>The shape of one request\<close>

lemma resolveUncached_shape:
  "(\<exists>t. resolveUncached env clk cache req =
          \<lparr> response = ServerError, cacheAfter = cache, trace = t \<rparr>) \<or>
   (\<exists>d s t. resolveUncached env clk cache req =
      \<lparr> response = Success d False s,
        cacheAfter = cache(cacheKeyOf req \<mapsto> \<lparr> data = d, timestamp = storedAt clk \<rparr>),
        trace = t \<rparr>)"
  by (simp add: resolveUncached_def Let_def split: prod.splits sum.splits)

lemma steps_recordStep [simp]:
  "steps (recordStep r c p a) =
     steps r @ [\<lparr> provider = c, before = info r, contribution = p, after = a \<rparr>]"
  by (simp add: recordStep_def)

lemma info_recordStep [simp]: "info (recordStep r c p a) = a"
  by (simp add: recordStep_def)

lemma primaryLookup_steps: "steps (primaryLookup env icao r) \<noteq> []"
  by (simp add: primaryLookup_def Let_def)

lemma earlyReturn_steps:
  "steps r \<noteq> [] \<Longrightarrow> earlyReturn env r = Inr r2 \<Longrightarrow> steps r2 \<noteq> []"
  by (auto simp add: earlyReturn_def Let_def split: sum.splits if_splits)

lemma lookupByRegistration_steps: "steps (lookupByRegistration env t r) \<noteq> []"
  by (simp add: lookupByRegistration_def Let_def)

lemma fullFallback_steps_mono:
  "steps r \<noteq> [] \<Longrightarrow> steps (fst (fullFallback env req r)) \<noteq> []"
  by (auto simp add: fullFallback_def Let_def lookupByRegistration_steps split: prod.splits if_splits)

lemma truthyValue_ofParam [simp]: "truthyValue (ofParam x) = truthy x"
  by (cases x) (simp_all add: ofParam_def truthy_def)

lemma fullFallback_steps_registration:
  "truthy (registrationParam req) \<Longrightarrow> \<not> truthyValue (registration (info r)) \<Longrightarrow>
   steps (fst (fullFallback env req r)) \<noteq> []"
  by (auto simp add: fullFallback_def Let_def orValue_def lookupByRegistration_steps
      split: prod.splits if_splits)

lemma truthy_nullInfo [simp]:
  "\<not> truthyValue (registration nullInfo)" "\<not> truthyValue (model nullInfo)"
  by (simp_all add: nullInfo_def)

lemma resolveUncached_trace:
  assumes "truthy (icao24 req) \<or> truthy (registrationParam req)"
  shows "trace (resolveUncached env clk cache req) \<noteq> []"
proof (cases "truthy (icao24 req)")
  case True
  then show ?thesis
    by (auto simp add: resolveUncached_def Let_def case_prod_beta
          primaryLookup_steps fullFallback_steps_mono
        split: sum.splits dest: earlyReturn_steps [OF primaryLookup_steps])
next
  case False
  with assms have "truthy (registrationParam req)" by simp
  with False show ?thesis
    by (auto simp add: resolveUncached_def Let_def case_prod_beta fullFallback_steps_registration
        split: sum.splits)
qed

lemma GET_hit:
  assumes "truthy (icao24 req) \<or> truthy (registrationParam req)"
    and "cache (cacheKeyOf req) = Some e"
    and "checkedAt clk - timestamp e < CACHE_DURATION"
  shows "GET env clk cache req =
     \<lparr> response = Success (data e) True
          \<lparr> opensky = truthy (icao24 req),
            planespotters = truthy (registrationParam req),
            supabase = truthy (registrationParam req),
            flightaware = truthy (FLIGHTAWARE_API_KEY env),
            aviationstack = truthy (AVIATIONSTACK_API_KEY env) \<rparr>,
        cacheAfter = cache, trace = [] \<rparr>"
  using assms by (auto simp add: GET_def)

lemma GET_miss:
  assumes "truthy (icao24 req) \<or> truthy (registrationParam req)"
    and "\<forall>e. cache (cacheKeyOf req) = Some e \<longrightarrow> \<not> checkedAt clk - timestamp e < CACHE_DURATION"
  shows "GET env clk cache req = resolveUncached env clk cache req"
  using assms by (auto simp add: GET_def split: option.splits)

lemma GET_cases:
  assumes "truthy (icao24 req) \<or> truthy (registrationParam req)"
  shows "(\<exists>e. cache (cacheKeyOf req) = Some e \<and> checkedAt clk - timestamp e < CACHE_DURATION \<and>
            GET env clk cache req =
              \<lparr> response = Success (data e) True
                   \<lparr> opensky = truthy (icao24 req),
                     planespotters = truthy (registrationParam req),
                     supabase = truthy (registrationParam req),
                     flightaware = truthy (FLIGHTAWARE_API_KEY env),
                     aviationstack = truthy (AVIATIONSTACK_API_KEY env) \<rparr>,
                 cacheAfter = cache, trace = [] \<rparr>) \<or>
         GET env clk cache req = resolveUncached env clk cache req"
proof (cases "\<exists>e. cache (cacheKeyOf req) = Some e \<and> checkedAt clk - timestamp e < CACHE_DURATION")
  case True
  then obtain e where "cache (cacheKeyOf req) = Some e"
    "checkedAt clk - timestamp e < CACHE_DURATION" by blast
  with GET_hit [of req cache e clk env] assms show ?thesis by blast
next
  case False
  with assms have "GET env clk cache req = resolveUncached env clk cache req"
    by (intro GET_miss) auto
  then show ?thesis by simp
qed

lemma GET_stores_what_it_returns:
  assumes "truthy (icao24 req) \<or> truthy (registrationParam req)"
    and "response (GET env clk cache req) = Success d c s"
  shows "\<exists>e. cacheAfter (GET env clk cache req) (cacheKeyOf req) = Some e \<and> data e = d \<and>
           (\<forall>k. k \<noteq> cacheKeyOf req \<longrightarrow> cacheAfter (GET env clk cache req) k = cache k)"
  using GET_cases [OF assms(1), of cache clk env] resolveUncached_shape [of env clk cache req] assms(2)
  by auto

lemma GET_not_rejected:
  assumes "truthy (icao24 req) \<or> truthy (registrationParam req)"
  shows "response (GET env clk cache req) = ServerError \<or>
         (\<exists>d c s. response (GET env clk cache req) = Success d c s)"
  using GET_cases [OF assms, of cache clk env] resolveUncached_shape [of env clk cache req]
  by auto

lemma cacheKeyOf_cases:
  "(truthy (icao24 req) \<longrightarrow> cacheKeyOf req = the (icao24 req)) \<and>
   (\<not> truthy (icao24 req) \<and> truthy (registrationParam req) \<longrightarrow>
      cacheKeyOf req = the (registrationParam req))"
  by (simp add: cacheKeyOf_def or_else_def)

lemma fullFallback_ignores_callsign:
  assumes "truthy (registrationParam req)"
  shows "fullFallback env (req \<lparr> callsign := c \<rparr>) r = fullFallback env req r"
  using assms by (simp add: fullFallback_def orValue_def)

section \<open>The identifier test\<close>

text \<open>
  Claim C5: a request with neither a transponder code nor a registration
  (each \<open>null\<close> or empty) is answered with status 400,
  \<open>ICAO24 or registration is required\<close>, without any provider call and
  without touching the cache, whatever its callsign; a request with at least
  one of the two is never answered with that error.
\<close>

theorem insufficient_identifier:
  "(\<not> truthy (icao24 req) \<and> \<not> truthy (registrationParam req) \<longrightarrow>
      response (GET env clk cache req) = BadRequest \<and>
      trace (GET env clk cache req) = [] \<and>
      cacheAfter (GET env clk cache req) = cache) \<and>
   (truthy (icao24 req) \<or> truthy (registrationParam req) \<longrightarrow>
      response (GET env clk cache req) \<noteq> BadRequest)"
proof (intro conjI impI)
  assume "truthy (icao24 req) \<or> truthy (registrationParam req)"
  from GET_not_rejected [OF this, of env clk cache]
  show "response (GET env clk cache req) \<noteq> BadRequest" by auto
qed (simp_all add: GET_def)

theorem insufficient_identifier_witness:
  "response (GET fleetWorld firstClock Map.empty byCallsign) = BadRequest \<and>
   trace (GET fleetWorld firstClock Map.empty byCallsign) = [] \<and>
   response (GET fleetWorld firstClock Map.empty byIcao) \<noteq> BadRequest \<and>
   response (GET fleetWorld firstClock Map.empty byRegistration) \<noteq> BadRequest"
  using insufficient_identifier [of byCallsign fleetWorld firstClock Map.empty]
    insufficient_identifier [of byIcao fleetWorld firstClock Map.empty]
    insufficient_identifier [of byRegistration fleetWorld firstClock Map.empty]
  by (simp add: byCallsign_def byIcao_def byRegistration_def truthy_def)

lemma extract_None [simp]: "extractRegistrationFromCallsign None = None"
  by (simp add: extractRegistrationFromCallsign_def truthy_def)

lemma derivation_reached_with_transponder_code:
  "response (GET silentWorld firstClock Map.empty (byIcao \<lparr> callsign := Some ''SPLRD'' \<rparr>)) =
     Success (nullInfo \<lparr> registration := JStr ''SP-LRD'', category := JStr ''unknown'' \<rparr>) False
       \<lparr> opensky = True, planespotters = True, supabase = True,
         flightaware = False, aviationstack = False \<rparr> \<and>
   map provider (trace (GET silentWorld firstClock Map.empty (byIcao \<lparr> callsign := Some ''LOT123'' \<rparr>))) =
     [OpenSkyCall ''48ae03'', PlanespottersCall (JStr ''LOT123'')]"
  by code_simp

lemma derivable_from_example_callsign:
  "extractRegistrationFromCallsign (callsign byCallsign) = Some ''SP-LRD''"
  by code_simp

text \<open>
  Claim C10: without a transponder code the callsign plays no part. A request
  with a callsign but neither transponder code nor registration is rejected
  with status 400 and no provider call, also when a registration could be
  derived from the callsign; and when only a registration is given, the whole
  outcome (response, cache, provider calls) is the same for every callsign. So
  the derivation from the callsign and the photo lookup by callsign are
  reached only by requests that carry a transponder code.
\<close>

theorem callsign_needs_transponder_code:
  assumes "\<not> truthy (icao24 req)"
  shows "(\<not> truthy (registrationParam req) \<longrightarrow>
            response (GET env clk cache req) = BadRequest \<and> trace (GET env clk cache req) = []) \<and>
         GET env clk cache (req \<lparr> callsign := c \<rparr>) = GET env clk cache req"
proof (cases "truthy (registrationParam req)")
  case True
  with assms have "resolveUncached env clk cache (req \<lparr> callsign := c \<rparr>) =
      resolveUncached env clk cache req"
    by (simp add: resolveUncached_def cacheKeyOf_def fullFallback_ignores_callsign
        split: prod.splits sum.splits)
  with True show ?thesis by (simp add: GET_def cacheKeyOf_def split: option.splits)
next
  case False
  with assms show ?thesis by (simp add: GET_def)
qed

theorem callsign_needs_transponder_code_witness:
  "response (GET fleetWorld firstClock Map.empty byCallsign) = BadRequest \<and>
   trace (GET fleetWorld firstClock Map.empty byCallsign) = [] \<and>
   extractRegistrationFromCallsign (callsign byCallsign) = Some ''SP-LRD'' \<and>
   GET photoWorld firstClock Map.empty (byRegistration \<lparr> callsign := Some ''SPLRD'' \<rparr>) =
     GET photoWorld firstClock Map.empty byRegistration \<and>
   response (GET silentWorld firstClock Map.empty (byIcao \<lparr> callsign := Some ''SPLRD'' \<rparr>)) =
     Success (nullInfo \<lparr> registration := JStr ''SP-LRD'', category := JStr ''unknown'' \<rparr>) False
       \<lparr> opensky = True, planespotters = True, supabase = True,
         flightaware = False, aviationstack = False \<rparr> \<and>
   map provider (trace (GET silentWorld firstClock Map.empty (byIcao \<lparr> callsign := Some ''LOT123'' \<rparr>))) =
     [OpenSkyCall ''48ae03'', PlanespottersCall (JStr ''LOT123'')]"
  using callsign_needs_transponder_code [of byCallsign fleetWorld firstClock Map.empty "callsign byCallsign"]
    callsign_needs_transponder_code [of byRegistration photoWorld firstClock Map.empty "Some ''SPLRD''"]
    derivation_reached_with_transponder_code derivable_from_example_callsign
  by (simp add: byCallsign_def byRegistration_def truthy_def)

section \<open>The response cache\<close>

text \<open>
  Claim C7: after a request that passed the identifier test and was answered
  with a success record, the cache holds an entry under the request's key
  whose data is the record just returned; a second request with the same
  identifiers whose cache test finds that entry younger than \<open>CACHE_DURATION\<close>
  calls no provider and returns the same record with \<open>cached\<close> set, whatever
  the providers would answer. The key is the transponder code, or the
  registration when no transponder code was given.
\<close>

theorem cache_round_trip:
  assumes "truthy (icao24 req) \<or> truthy (registrationParam req)"
    and "response (GET env1 clk1 cache0 req) = Success d c s"
  shows "(\<exists>e. cacheAfter (GET env1 clk1 cache0 req) (cacheKeyOf req) = Some e \<and>
            data e = d \<and>
            (checkedAt clk2 - timestamp e < CACHE_DURATION \<longrightarrow>
               trace (GET env2 clk2 (cacheAfter (GET env1 clk1 cache0 req)) req) = [] \<and>
               (\<exists>s2. response (GET env2 clk2 (cacheAfter (GET env1 clk1 cache0 req)) req) =
                        Success d True s2))) \<and>
         (truthy (icao24 req) \<longrightarrow> cacheKeyOf req = the (icao24 req)) \<and>
         (\<not> truthy (icao24 req) \<longrightarrow> cacheKeyOf req = the (registrationParam req))"
proof (intro conjI)
  obtain e where e: "cacheAfter (GET env1 clk1 cache0 req) (cacheKeyOf req) = Some e"
    "data e = d"
    using GET_stores_what_it_returns [OF assms] by blast
  have "checkedAt clk2 - timestamp e < CACHE_DURATION \<longrightarrow>
               trace (GET env2 clk2 (cacheAfter (GET env1 clk1 cache0 req)) req) = [] \<and>
               (\<exists>s2. response (GET env2 clk2 (cacheAfter (GET env1 clk1 cache0 req)) req) =
                        Success (data e) True s2)"
    using GET_hit [of req "cacheAfter (GET env1 clk1 cache0 req)" e clk2 env2] assms(1) e(1)
    by simp
  with e show "\<exists>e. cacheAfter (GET env1 clk1 cache0 req) (cacheKeyOf req) = Some e \<and>
            data e = d \<and>
            (checkedAt clk2 - timestamp e < CACHE_DURATION \<longrightarrow>
               trace (GET env2 clk2 (cacheAfter (GET env1 clk1 cache0 req)) req) = [] \<and>
               (\<exists>s2. response (GET env2 clk2 (cacheAfter (GET env1 clk1 cache0 req)) req) =
                        Success d True s2))"
    by blast
  show "truthy (icao24 req) \<longrightarrow> cacheKeyOf req = the (icao24 req)"
    using cacheKeyOf_cases by blast
  show "\<not> truthy (icao24 req) \<longrightarrow> cacheKeyOf req = the (registrationParam req)"
    using cacheKeyOf_cases assms by blast
qed

theorem cache_round_trip_witness:
  "trace (GET silentWorld secondClock (cacheAfter (GET fleetWorld firstClock Map.empty byIcao)) byIcao) = [] \<and>
   (\<exists>s2. response (GET silentWorld secondClock (cacheAfter (GET fleetWorld firstClock Map.empty byIcao)) byIcao) =
      Success \<lparr> registration = JStr ''SP-LRD'', model = JStr ''737-800'',
                manufacturer = JStr ''BOEING CO'', owner = JNull, operator = JNull,
                yearBuilt = JNull, engineType = JNull, category = JStr ''unknown'',
                photoUrl = JNull \<rparr> True s2) \<and>
   cacheKeyOf byIcao = ''48ae03''"
proof -
  have v: "truthy (icao24 byIcao) \<or> truthy (registrationParam byIcao)"
    by (simp add: byIcao_def truthy_def)
  have r: "response (GET fleetWorld firstClock Map.empty byIcao) =
      Success \<lparr> registration = JStr ''SP-LRD'', model = JStr ''737-800'',
                manufacturer = JStr ''BOEING CO'', owner = JNull, operator = JNull,
                yearBuilt = JNull, engineType = JNull, category = JStr ''unknown'',
                photoUrl = JNull \<rparr> False
        \<lparr> opensky = True, planespotters = False, supabase = True,
          flightaware = False, aviationstack = False \<rparr>"
    by code_simp
  have t: "map_option timestamp
      (cacheAfter (GET fleetWorld firstClock Map.empty byIcao) (cacheKeyOf byIcao)) = Some 1500"
    by code_simp
  from cache_round_trip [OF v r, of secondClock silentWorld]
  obtain e where e:
    "cacheAfter (GET fleetWorld firstClock Map.empty byIcao) (cacheKeyOf byIcao) = Some e"
    "checkedAt secondClock - timestamp e < CACHE_DURATION \<longrightarrow>
       trace (GET silentWorld secondClock (cacheAfter (GET fleetWorld firstClock Map.empty byIcao)) byIcao) = [] \<and>
       (\<exists>s2. response (GET silentWorld secondClock (cacheAfter (GET fleetWorld firstClock Map.empty byIcao)) byIcao) =
          Success \<lparr> registration = JStr ''SP-LRD'', model = JStr ''737-800'',
                manufacturer = JStr ''BOEING CO'', owner = JNull, operator = JNull,
                yearBuilt = JNull, engineType = JNull, category = JStr ''unknown'',
                photoUrl = JNull \<rparr> True s2)"
    and k: "cacheKeyOf byIcao = the (icao24 byIcao)"
    using v by (auto simp add: byIcao_def truthy_def)
  from e(1) t have "timestamp e = 1500" by simp
  then have "checkedAt secondClock - timestamp e < CACHE_DURATION"
    by (simp add: secondClock_def CACHE_DURATION_def)
  with e(2) k show ?thesis by (simp add: byIcao_def)
qed

text \<open>
  Claim C8, as the specification states it, has a provider that failed retried
  by the next resolution of the same identifier. In the silent world OpenSky
  fails for \<open>48ae03\<close> and contributes \<open>{}\<close>; the record with every field
  \<open>null\<close> but the category is stored, and a second request 58.5 seconds later,
  in a world where OpenSky and the database would answer, calls no provider
  and is served that record from the cache.
\<close>

theorem failed_contribution_served_from_cache:
  "map provider (trace (GET silentWorld firstClock Map.empty byIcao)) = [OpenSkyCall ''48ae03''] \<and>
   map contribution (trace (GET silentWorld firstClock Map.empty byIcao)) = [emptyPartial] \<and>
   trace (GET fleetWorld secondClock (cacheAfter (GET silentWorld firstClock Map.empty byIcao)) byIcao) = [] \<and>
   response (GET fleetWorld secondClock (cacheAfter (GET silentWorld firstClock Map.empty byIcao)) byIcao) =
     Success (nullInfo \<lparr> category := JStr ''unknown'' \<rparr>) True
       \<lparr> opensky = True, planespotters = False, supabase = False,
         flightaware = False, aviationstack = False \<rparr>"
  by code_simp

text \<open>
  Claim C8, amended: the record of a request answered with success is stored
  in the response cache whatever the providers contributed, failed
  contributions included. A later request with the same identifiers calls no
  provider exactly when its cache test finds the entry younger than
  \<open>CACHE_DURATION\<close> (five minutes); once the entry is that old or older, the
  providers are called again.
\<close>

theorem failed_contribution_cached_until_expiry:
  assumes "truthy (icao24 req) \<or> truthy (registrationParam req)"
    and "response (GET env1 clk1 cache0 req) = Success d c s"
  shows "\<exists>e. cacheAfter (GET env1 clk1 cache0 req) (cacheKeyOf req) = Some e \<and> data e = d \<and>
           (trace (GET env2 clk2 (cacheAfter (GET env1 clk1 cache0 req)) req) = [] \<longleftrightarrow>
              checkedAt clk2 - timestamp e < CACHE_DURATION)"
proof -
  obtain e where e: "cacheAfter (GET env1 clk1 cache0 req) (cacheKeyOf req) = Some e"
    "data e = d"
    using GET_stores_what_it_returns [OF assms] by blast
  have "trace (GET env2 clk2 (cacheAfter (GET env1 clk1 cache0 req)) req) = [] \<longleftrightarrow>
              checkedAt clk2 - timestamp e < CACHE_DURATION"
  proof (cases "checkedAt clk2 - timestamp e < CACHE_DURATION")
    case True
    then show ?thesis
      using GET_hit [of req "cacheAfter (GET env1 clk1 cache0 req)" e clk2 env2] assms(1) e(1)
      by simp
  next
    case False
    with e have "GET env2 clk2 (cacheAfter (GET env1 clk1 cache0 req)) req =
        resolveUncached env2 clk2 (cacheAfter (GET env1 clk1 cache0 req)) req"
      using assms(1) by (intro GET_miss) auto
    with False show ?thesis using resolveUncached_trace [OF assms(1)] by simp
  qed
  with e show ?thesis by blast
qed

theorem failed_contribution_cached_until_expiry_witness:
  "\<exists>e. cacheAfter (GET silentWorld firstClock Map.empty byIcao) (cacheKeyOf byIcao) = Some e \<and>
        data e = nullInfo \<lparr> category := JStr ''unknown'' \<rparr> \<and>
        (trace (GET fleetWorld secondClock (cacheAfter (GET silentWorld firstClock Map.empty byIcao)) byIcao) = []
           \<longleftrightarrow> checkedAt secondClock - timestamp e < CACHE_DURATION)"
proof -
  have v: "truthy (icao24 byIcao) \<or> truthy (registrationParam byIcao)"
    by (simp add: byIcao_def truthy_def)
  have r: "response (GET silentWorld firstClock Map.empty byIcao) =
      Success (nullInfo \<lparr> category := JStr ''unknown'' \<rparr>) False
        \<lparr> opensky = True, planespotters = False, supabase = False,
          flightaware = False, aviationstack = False \<rparr>"
    by code_simp
  from failed_contribution_cached_until_expiry [OF v r, of fleetWorld secondClock]
  show ?thesis .
qed

section \<open>Failing providers, and the one way a request fails\<close>







lemma spread_emptyPartial [simp]: "spread a emptyPartial = a"
  by (simp add: spread_def spreadKey_def emptyPartial_def)

lemma spreadKeepPhoto_emptyPartial [simp]: "spreadKeepPhoto a emptyPartial = a"
  by (simp add: spreadKeepPhoto_def)

lemma takePhoto_emptyPartial [simp]: "takePhoto a emptyPartial = a"
  by (simp add: takePhoto_def readKey_def emptyPartial_def)

lemma spreadKeepPhoto_null_photo [simp]:
  "spreadKeepPhoto a (emptyPartial \<lparr> p_photoUrl := Some JNull \<rparr>) = a"
  by (simp add: spreadKeepPhoto_def spread_def spreadKey_def emptyPartial_def)

lemma takePhoto_null_photo [simp]:
  "takePhoto a (emptyPartial \<lparr> p_photoUrl := Some JNull \<rparr>) = a"
  by (simp add: takePhoto_def readKey_def emptyPartial_def)







lemma setCategory_nullInfo [simp]:
  "setCategory nullInfo = Inr (nullInfo \<lparr> category := JStr ''unknown'' \<rparr>)"
  "setCategory (nullInfo \<lparr> registration := v \<rparr>) =
     Inr (nullInfo \<lparr> registration := v, category := JStr ''unknown'' \<rparr>)"
  by (simp_all add: setCategory_def categoryOf_def nullInfo_def)


lemma model_spread [simp]: "model (spread a p) = spreadKey (model a) (p_model p)"
  by (simp add: spread_def)

lemma model_spreadKeepPhoto [simp]:
  "model (spreadKeepPhoto a p) = spreadKey (model a) (p_model p)"
  by (simp add: spreadKeepPhoto_def)

lemma model_takePhoto [simp]: "model (takePhoto a p) = model a"
  by (simp add: takePhoto_def)












lemma resolveUncached_early:
  assumes "r1 = primaryLookup env (the (icao24 req)) \<lparr> info = nullInfo, steps = [] \<rparr>"
    and "truthy (icao24 req)"
    and "truthyValue (registration (info r1)) \<or> truthyValue (model (info r1))"
  shows "resolveUncached env clk cache req =
     (case earlyReturn env r1 of
        Inl e \<Rightarrow> \<lparr> response = ServerError, cacheAfter = cache, trace = steps r1 \<rparr>
      | Inr r2 \<Rightarrow>
          \<lparr> response = Success (info r2) False
               \<lparr> opensky = True, planespotters = truthyValue (photoUrl (info r2)),
                 supabase = truthyValue (registration (info r2)),
                 flightaware = False, aviationstack = False \<rparr>,
            cacheAfter = cache(cacheKeyOf req \<mapsto> \<lparr> data = info r2, timestamp = storedAt clk \<rparr>),
            trace = steps r2 \<rparr>)"
  using assms by (auto simp add: resolveUncached_def Let_def)

lemma resolveUncached_full:
  assumes "r1 = (if truthy (icao24 req)
                 then primaryLookup env (the (icao24 req)) \<lparr> info = nullInfo, steps = [] \<rparr>
                 else \<lparr> info = nullInfo, steps = [] \<rparr>)"
    and "\<not> (truthy (icao24 req) \<and>
            (truthyValue (registration (info r1)) \<or> truthyValue (model (info r1))))"
  shows "resolveUncached env clk cache req =
     (case setCategory (info (fst (fullFallback env req r1))) of
        Inl e \<Rightarrow> \<lparr> response = ServerError, cacheAfter = cache,
                   trace = steps (fst (fullFallback env req r1)) \<rparr>
      | Inr a \<Rightarrow>
          \<lparr> response = Success a False
               \<lparr> opensky = truthy (icao24 req),
                 planespotters = truthyValue (snd (fullFallback env req r1)),
                 supabase = truthyValue (snd (fullFallback env req r1)),
                 flightaware = truthy (FLIGHTAWARE_API_KEY env),
                 aviationstack = truthy (AVIATIONSTACK_API_KEY env) \<rparr>,
            cacheAfter = cache(cacheKeyOf req \<mapsto> \<lparr> data = a, timestamp = storedAt clk \<rparr>),
            trace = steps (fst (fullFallback env req r1)) \<rparr>)"
  using assms by (auto simp add: resolveUncached_def Let_def case_prod_beta)






section \<open>The photo is set at most once\<close>

lemma sticky_snoc:
  "sticky (xs @ [a]) \<Longrightarrow> (a \<noteq> JNull \<longrightarrow> b = a) \<Longrightarrow> sticky (xs @ [a, b])"
  by (induction xs) auto

lemma sticky_nth:
  "sticky xs \<Longrightarrow> i < j \<Longrightarrow> j < length xs \<Longrightarrow> xs ! i \<noteq> JNull \<Longrightarrow> xs ! j = xs ! i"
proof (induction xs arbitrary: i j)
  case Nil
  then show ?case by simp
next
  case (Cons x xs)
  show ?case
  proof (cases i)
    case 0
    with Cons.prems obtain k where "j = Suc k" "k < length xs" by (cases j) auto
    with 0 Cons.prems show ?thesis by auto
  next
    case (Suc i')
    with Cons.prems obtain k where "j = Suc k" "i' < k" "k < length xs" by (cases j) auto
    with Suc Cons show ?thesis by auto
  qed
qed

lemma photoTimeline_snoc:
  "photoTimeline (ss @ [s]) = photoTimeline ss @ [photoUrl (before s), photoUrl (after s)]"
  by (simp add: photoTimeline_def)

lemma photoKept_recordStep:
  assumes "photoKept r" and "photoUrl (info r) \<noteq> JNull \<longrightarrow> photoUrl a = photoUrl (info r)"
  shows "photoKept (recordStep r c p a)"
proof -
  from assms have "sticky (photoTimeline (steps r) @ [photoUrl (info r), photoUrl a])"
    unfolding photoKept_def by (intro sticky_snoc) auto
  then have "sticky ((photoTimeline (steps r) @ [photoUrl (info r)]) @ [photoUrl a])" by simp
  then have "sticky ((photoTimeline (steps r) @ [photoUrl (info r)]) @ [photoUrl a, photoUrl a])"
    by (intro sticky_snoc) auto
  then show ?thesis by (simp add: photoKept_def photoTimeline_snoc)
qed

lemma photoKept_info:
  "photoKept r \<Longrightarrow> photoUrl a = photoUrl (info r) \<Longrightarrow> photoKept (r \<lparr> info := a \<rparr>)"
  by (simp add: photoKept_def)

lemma photoUrl_spreadKeepPhoto [simp]: "photoUrl (spreadKeepPhoto a p) = photoUrl a"
  by (simp add: spreadKeepPhoto_def)

lemma no_photo_opensky [simp]: "p_photoUrl (callOpenSky env r a) = None"
  by (simp add: callOpenSky_def getOpenSkyInfo_def emptyPartial_def
      split: fetched.splits option.splits)

lemma no_photo_supabase [simp]: "p_photoUrl (callSupabase env r a) = None"
  by (simp add: callSupabase_def getSupabaseAircraftInfo_def emptyPartial_def
      split: fetched.splits option.splits)

lemma photoUrl_spread: "p_photoUrl p = None \<Longrightarrow> photoUrl (spread a p) = photoUrl a"
  by (simp add: spread_def spreadKey_def)

lemma primaryLookup_photo [simp]:
  "photoUrl (info (primaryLookup env icao r)) = photoUrl (info r)"
  by (simp add: primaryLookup_def Let_def photoUrl_spread)

lemma primaryLookup_photoKept: "photoKept r \<Longrightarrow> photoKept (primaryLookup env icao r)"
  by (simp add: primaryLookup_def Let_def photoUrl_spread photoKept_recordStep)

lemma setCategory_photo: "setCategory a = Inr b \<Longrightarrow> photoUrl b = photoUrl a"
  by (auto simp add: setCategory_def split: sum.splits)

lemma earlyReturn_photoKept:
  assumes "photoKept r" and "photoUrl (info r) = JNull" and "earlyReturn env r = Inr r2"
  shows "photoKept r2"
proof -
  from assms(3) obtain a where a: "setCategory (info r) = Inr a"
    by (auto simp add: earlyReturn_def split: sum.splits)
  with assms(2) have p: "photoUrl a = JNull" using setCategory_photo by fastforce
  with assms(1,2) have k: "photoKept (r \<lparr> info := a \<rparr>)" by (simp add: photoKept_info)
  from assms(3) a k p show ?thesis
    by (auto simp add: earlyReturn_def Let_def photoKept_recordStep split: if_splits)
qed

lemma lookupByRegistration_photoKept:
  "photoKept r \<Longrightarrow> photoUrl (info r) = JNull \<Longrightarrow> photoKept (lookupByRegistration env t r)"
  by (simp add: lookupByRegistration_def Let_def photoKept_recordStep)

lemma fullFallback_photoKept:
  "photoKept r \<Longrightarrow> photoUrl (info r) = JNull \<Longrightarrow> photoKept (fst (fullFallback env req r))"
  by (auto simp add: fullFallback_def Let_def photoKept_recordStep photoKept_info
      lookupByRegistration_photoKept split: if_splits)

lemma photoKept_start: "photoKept \<lparr> info = nullInfo, steps = [] \<rparr>"
  by (simp add: photoKept_def photoTimeline_def)

lemma photoUrl_nullInfo [simp]: "photoUrl nullInfo = JNull"
  by (simp add: nullInfo_def)

lemma photoHistory_Success [simp]:
  "photoHistory \<lparr> response = Success d c s, cacheAfter = m, trace = t \<rparr> =
     photoTimeline t @ [photoUrl d]"
  by (simp add: photoHistory_def)

lemma photoHistory_ServerError [simp]:
  "photoHistory \<lparr> response = ServerError, cacheAfter = m, trace = t \<rparr> = photoTimeline t"
  by (simp add: photoHistory_def)

lemma sticky_butlast: "sticky (xs @ [a]) \<Longrightarrow> sticky xs"
  by (induction xs) auto

lemma photoKept_timeline: "photoKept r \<Longrightarrow> sticky (photoTimeline (steps r))"
  unfolding photoKept_def by (rule sticky_butlast)

lemma resolveUncached_photoHistory:
  "sticky (photoHistory (resolveUncached env clk cache req))"
proof -
  let ?r0 = "\<lparr> info = nullInfo, steps = [] \<rparr>"
  define r1 where "r1 = (if truthy (icao24 req) then primaryLookup env (the (icao24 req)) ?r0 else ?r0)"
  have k: "photoKept r1" and n: "photoUrl (info r1) = JNull"
    by (simp_all add: r1_def photoKept_start primaryLookup_photoKept)
  show ?thesis
  proof (cases "truthy (icao24 req) \<and>
      (truthyValue (registration (info r1)) \<or> truthyValue (model (info r1)))")
    case True
    then have i: "r1 = primaryLookup env (the (icao24 req)) ?r0" by (simp add: r1_def)
    show ?thesis
    proof (cases "earlyReturn env r1")
      case (Inl e)
      with resolveUncached_early [OF i, of clk cache] True k show ?thesis
        by (simp add: photoKept_timeline)
    next
      case (Inr r2)
      with earlyReturn_photoKept [OF k n Inr] resolveUncached_early [OF i, of clk cache] True
      show ?thesis by (simp add: photoKept_def)
    qed
  next
    case False
    define r2 where "r2 = fst (fullFallback env req r1)"
    have k2: "photoKept r2" using k n by (simp add: r2_def fullFallback_photoKept)
    show ?thesis
    proof (cases "setCategory (info r2)")
      case (Inl e)
      with resolveUncached_full [OF r1_def False, of clk cache] k2 show ?thesis
        by (simp add: r2_def photoKept_timeline)
    next
      case (Inr a)
      then have "photoUrl a = photoUrl (info r2)" by (rule setCategory_photo)
      with Inr resolveUncached_full [OF r1_def False, of clk cache] k2 show ?thesis
        by (simp add: r2_def photoKept_def)
    qed
  qed
qed

lemma GET_photoHistory: "sticky (photoHistory (GET env clk cache req))"
  by (simp add: GET_def resolveUncached_photoHistory split: option.splits)
     (simp add: photoHistory_def photoTimeline_def)

text \<open>
  Claim C2: in the values of \<open>photoUrl\<close> that one request goes through (before
  and after each provider call, then in the record returned), a value that is
  not \<open>null\<close> is followed only by itself: once a provider call has set the photo,
  no later provider call of the same request replaces it, and a photo is set
  only while the field is still \<open>null\<close>.
\<close>

theorem photo_set_once:
  "\<forall>i j. i < j \<and> j < length (photoHistory (GET env clk cache req)) \<and>
         photoHistory (GET env clk cache req) ! i \<noteq> JNull \<longrightarrow>
         photoHistory (GET env clk cache req) ! j = photoHistory (GET env clk cache req) ! i"
  using sticky_nth [OF GET_photoHistory] by blast

theorem photo_set_once_witness:
  "map provider (trace (GET photoWorld firstClock Map.empty byRegistration)) =
     [PlanespottersCall (JStr ''SP-LRD''), SupabaseCall (JStr ''SP-LRD''),
      FlightAwareCall (JStr ''SP-LRD'')] \<and>
   photoHistory (GET photoWorld firstClock Map.empty byRegistration) ! 0 = JNull \<and>
   photoHistory (GET photoWorld firstClock Map.empty byRegistration) ! 1 =
     JStr ''https://img.example/large.jpg'' \<and>
   photoHistory (GET photoWorld firstClock Map.empty byRegistration) ! 6 =
     photoHistory (GET photoWorld firstClock Map.empty byRegistration) ! 1"
proof -
  have t: "map provider (trace (GET photoWorld firstClock Map.empty byRegistration)) =
     [PlanespottersCall (JStr ''SP-LRD''), SupabaseCall (JStr ''SP-LRD''),
      FlightAwareCall (JStr ''SP-LRD'')]"
    by code_simp
  have l: "length (photoHistory (GET photoWorld firstClock Map.empty byRegistration)) = 7"
    by code_simp
  have h0: "photoHistory (GET photoWorld firstClock Map.empty byRegistration) ! 0 = JNull"
    by code_simp
  have h1: "photoHistory (GET photoWorld firstClock Map.empty byRegistration) ! 1 =
      JStr ''https://img.example/large.jpg''"
    by code_simp
  from photo_set_once [of photoWorld firstClock Map.empty byRegistration]
  have "(1::nat) < 6 \<and> 6 < length (photoHistory (GET photoWorld firstClock Map.empty byRegistration)) \<and>
      photoHistory (GET photoWorld firstClock Map.empty byRegistration) ! 1 \<noteq> JNull \<longrightarrow>
      photoHistory (GET photoWorld firstClock Map.empty byRegistration) ! 6 =
        photoHistory (GET photoWorld firstClock Map.empty byRegistration) ! 1"
    by blast
  with l h1 have "photoHistory (GET photoWorld firstClock Map.empty byRegistration) ! 6 =
     photoHistory (GET photoWorld firstClock Map.empty byRegistration) ! 1"
    by simp
  with t h0 h1 show ?thesis by simp
qed

section \<open>The merge of provider results\<close>

lemma fieldValue_spread:
  "fieldValue f (spread a p) = spreadKey (fieldValue f a) (fieldKey f p)"
  by (cases f) (simp_all add: spread_def)

lemma fieldValue_spreadKeepPhoto:
  "f \<noteq> PhotoUrl \<Longrightarrow>
   fieldValue f (spreadKeepPhoto a p) = spreadKey (fieldValue f a) (fieldKey f p)"
  by (cases f) (simp_all add: spreadKeepPhoto_def spread_def)

lemma fieldValue_takePhoto:
  "f \<noteq> PhotoUrl \<Longrightarrow> fieldValue f (takePhoto a p) = fieldValue f a"
  by (cases f) (simp_all add: takePhoto_def)

lemma spreadsFields_spread:
  "spreadsFields \<lparr> provider = c, before = b, contribution = p, after = spread b p \<rparr>"
  by (simp add: spreadsFields_def fieldValue_spread)

lemma spreadsFields_spreadKeepPhoto:
  "spreadsFields \<lparr> provider = c, before = b, contribution = p, after = spreadKeepPhoto b p \<rparr>"
  by (simp add: spreadsFields_def fieldValue_spreadKeepPhoto)

lemma spreadsFields_photo_then_spread:
  "spreadsFields \<lparr> provider = c, before = b, contribution = p,
     after = spreadKeepPhoto (takePhoto b p) p \<rparr>"
  by (simp add: spreadsFields_def fieldValue_spreadKeepPhoto fieldValue_takePhoto)

lemma keepsFields_photo_only:
  "keepsFields \<lparr> provider = c, before = b, contribution = p, after = takePhoto b p \<rparr>"
  by (simp add: keepsFields_def fieldValue_takePhoto)

lemma mergedAsWritten_snoc:
  "mergedAsWritten ss \<Longrightarrow> (ss \<noteq> [] \<longrightarrow> \<not> isPlanespottersCall (provider (last ss))) \<Longrightarrow>
   mergedAsWritten [s] \<Longrightarrow> mergedAsWritten (ss @ [s])"
proof (induction ss rule: mergedAsWritten.induct)
  case 1
  then show ?case by simp
next
  case (2 t)
  then show ?case by (cases "provider t") auto
next
  case (3 a b cs)
  then show ?case by simp
qed

lemma openForCalls_Nil [simp]: "openForCalls []"
  by (simp add: openForCalls_def)

lemma openForCalls_merged: "openForCalls ss \<Longrightarrow> mergedAsWritten ss"
  by (simp add: openForCalls_def)

lemma openForCalls_spread:
  "openForCalls ss \<Longrightarrow> spreadsFields s \<Longrightarrow> \<not> isPlanespottersCall (provider s) \<Longrightarrow>
   openForCalls (ss @ [s])"
  by (simp add: openForCalls_def mergedAsWritten_snoc)

lemma merged_photo_only:
  "openForCalls ss \<Longrightarrow> keepsFields s \<Longrightarrow> isPlanespottersCall (provider s) \<Longrightarrow>
   mergedAsWritten (ss @ [s])"
  by (simp add: openForCalls_def mergedAsWritten_snoc)

lemma mergedAsWritten_snoc2:
  "mergedAsWritten ss \<Longrightarrow> (ss \<noteq> [] \<longrightarrow> \<not> isPlanespottersCall (provider (last ss))) \<Longrightarrow>
   mergedAsWritten [s, t] \<Longrightarrow> mergedAsWritten (ss @ [s, t])"
proof (induction ss rule: mergedAsWritten.induct)
  case 1
  then show ?case by simp
next
  case (2 u)
  then show ?case by (cases "provider u") auto
next
  case (3 a b cs)
  then show ?case by simp
qed

lemma openForCalls_planespotters_then_supabase:
  assumes "openForCalls ss" and "spreadsFields s" and "provider s = PlanespottersCall reg"
    and "spreadsFields t" and "provider t = SupabaseCall reg"
  shows "openForCalls (ss @ [s, t])"
proof -
  from assms have "mergedAsWritten [s, t]" by simp
  with assms(1) have "mergedAsWritten (ss @ [s, t])"
    by (simp add: openForCalls_def mergedAsWritten_snoc2)
  with assms(5) show ?thesis by (simp add: openForCalls_def)
qed

lemma recordStep_open:
  "openForCalls (steps r) \<Longrightarrow> \<not> isPlanespottersCall c \<Longrightarrow>
   openForCalls (steps (recordStep r c p (spread (info r) p)))"
  by (simp add: recordStep_def openForCalls_spread spreadsFields_spread)

lemma primaryLookup_open:
  assumes "openForCalls (steps r)"
  shows "openForCalls (steps (primaryLookup env icao r))"
proof -
  define p where "p = callOpenSky env r icao"
  define r1 where "r1 = recordStep r (OpenSkyCall icao) p (spread (info r) p)"
  define q where "q = callSupabase env r1 (readKey (p_registration p))"
  have o1: "openForCalls (steps r1)"
    unfolding r1_def using assms by (rule recordStep_open) simp
  have o2: "openForCalls (steps (recordStep r1 (SupabaseCall (readKey (p_registration p))) q
      (spread (info r1) q)))"
    using o1 by (rule recordStep_open) simp
  have "primaryLookup env icao r =
      (if \<not> truthyValue (readKey (p_model p)) \<and> truthyValue (readKey (p_registration p))
       then recordStep r1 (SupabaseCall (readKey (p_registration p))) q (spread (info r1) q)
       else r1)"
    by (simp add: primaryLookup_def Let_def p_def r1_def q_def)
  with o1 o2 show ?thesis by simp
qed

lemma earlyReturn_merged:
  "openForCalls (steps r) \<Longrightarrow> earlyReturn env r = Inr r2 \<Longrightarrow> mergedAsWritten (steps r2)"
  by (auto simp add: earlyReturn_def Let_def recordStep_def merged_photo_only
      keepsFields_photo_only openForCalls_merged split: sum.splits if_splits)

lemma lookupByRegistration_open:
  assumes "openForCalls (steps r)"
  shows "openForCalls (steps (lookupByRegistration env t r))"
proof -
  define p where "p = callPlanespotters env r t"
  define r1 where "r1 = recordStep r (PlanespottersCall t) p
      (spreadKeepPhoto (takePhoto (info r) p) p)"
  define q where "q = callSupabase env r1 t"
  define r2 where "r2 = recordStep r1 (SupabaseCall t) q (spreadKeepPhoto (info r1) q)"
  define r3 where "r3 = (if truthy (FLIGHTAWARE_API_KEY env) then
      recordStep r2 (FlightAwareCall t) (callFlightAware env r2 t)
        (spreadKeepPhoto (info r2) (callFlightAware env r2 t)) else r2)"
  define r4 where "r4 = (if truthy (AVIATIONSTACK_API_KEY env) then
      recordStep r3 (AviationStackCall t) (callAviationStack env r3 t)
        (spreadKeepPhoto (info r3) (callAviationStack env r3 t)) else r3)"
  have e: "lookupByRegistration env t r = r4"
    by (simp add: lookupByRegistration_def Let_def r4_def r3_def r2_def q_def r1_def p_def)
  have "steps r2 = steps r @
      [\<lparr> provider = PlanespottersCall t, before = info r, contribution = p,
          after = spreadKeepPhoto (takePhoto (info r) p) p \<rparr>,
       \<lparr> provider = SupabaseCall t, before = info r1, contribution = q,
          after = spreadKeepPhoto (info r1) q \<rparr>]"
    by (simp add: r2_def r1_def recordStep_def)
  with assms have o2: "openForCalls (steps r2)"
    by (simp add: openForCalls_planespotters_then_supabase spreadsFields_photo_then_spread
        spreadsFields_spreadKeepPhoto)
  then have o3: "openForCalls (steps r3)"
    by (simp add: r3_def recordStep_def openForCalls_spread spreadsFields_spreadKeepPhoto)
  then have "openForCalls (steps r4)"
    by (simp add: r4_def recordStep_def openForCalls_spread spreadsFields_spreadKeepPhoto)
  with e show ?thesis by simp
qed

lemma fullFallback_merged:
  "openForCalls (steps r) \<Longrightarrow> mergedAsWritten (steps (fst (fullFallback env req r)))"
  by (auto simp add: fullFallback_def Let_def recordStep_def merged_photo_only
      keepsFields_photo_only openForCalls_merged lookupByRegistration_open split: if_splits)

lemma resolveUncached_merged: "mergedAsWritten (trace (resolveUncached env clk cache req))"
proof -
  let ?r0 = "\<lparr> info = nullInfo, steps = [] \<rparr>"
  define r1 where "r1 = (if truthy (icao24 req) then primaryLookup env (the (icao24 req)) ?r0 else ?r0)"
  have k: "openForCalls (steps r1)" by (simp add: r1_def primaryLookup_open)
  show ?thesis
  proof (cases "truthy (icao24 req) \<and>
      (truthyValue (registration (info r1)) \<or> truthyValue (model (info r1)))")
    case True
    then have i: "r1 = primaryLookup env (the (icao24 req)) ?r0" by (simp add: r1_def)
    show ?thesis
    proof (cases "earlyReturn env r1")
      case (Inl e)
      with resolveUncached_early [OF i, of clk cache] True k show ?thesis
        by (simp add: openForCalls_merged)
    next
      case (Inr r2)
      with earlyReturn_merged [OF k Inr] resolveUncached_early [OF i, of clk cache] True
      show ?thesis by simp
    qed
  next
    case False
    with resolveUncached_full [OF r1_def False, of clk cache] fullFallback_merged [OF k, of env req]
    show ?thesis by (cases "setCategory (info (fst (fullFallback env req r1)))") simp_all
  qed
qed

lemma GET_merged: "mergedAsWritten (trace (GET env clk cache req))"
  by (simp add: GET_def resolveUncached_merged split: option.splits)

lemma mergedAsWritten_nth:
  "mergedAsWritten ss \<Longrightarrow> i < length ss \<Longrightarrow>
   (if Suc i = length ss \<and> isPlanespottersCall (provider (ss ! i))
    then keepsFields (ss ! i) else spreadsFields (ss ! i)) \<and>
   (\<forall>reg. Suc i < length ss \<and> provider (ss ! i) = PlanespottersCall reg \<longrightarrow>
      provider (ss ! Suc i) = SupabaseCall reg)"
proof (induction ss arbitrary: i rule: mergedAsWritten.induct)
  case 1
  then show ?case by simp
next
  case (2 s)
  then show ?case by simp
next
  case (3 s t ss)
  show ?case
  proof (cases i)
    case 0
    with 3 show ?thesis by simp
  next
    case (Suc k)
    with "3.prems" have "mergedAsWritten (t # ss)" and "k < length (t # ss)" by simp_all
    from "3.IH" [OF this] Suc show ?thesis by auto
  qed
qed

text \<open>
  Claim C1, as the specification states it, has a field other than \<open>photoUrl\<close>
  that a provider set to a value never changed by a later provider call. In
  the fleet world OpenSky sets \<open>owner\<close> and \<open>manufacturer\<close> but no model, so the
  database is asked next; its row has no owner and another manufacturer name,
  and the spread of its result sets \<open>owner\<close> to \<open>null\<close> and replaces
  \<open>manufacturer\<close>.
\<close>

theorem later_provider_overwrites_field:
  "provider (trace (GET fleetWorld firstClock Map.empty byIcao) ! 0) = OpenSkyCall ''48ae03'' \<and>
   provider (trace (GET fleetWorld firstClock Map.empty byIcao) ! 1) =
     SupabaseCall (JStr ''SP-LRD'') \<and>
   owner (before (trace (GET fleetWorld firstClock Map.empty byIcao) ! 1)) =
     JStr ''LOT Polish Airlines'' \<and>
   owner (after (trace (GET fleetWorld firstClock Map.empty byIcao) ! 1)) = JNull \<and>
   manufacturer (before (trace (GET fleetWorld firstClock Map.empty byIcao) ! 1)) =
     JStr ''Boeing'' \<and>
   manufacturer (after (trace (GET fleetWorld firstClock Map.empty byIcao) ! 1)) =
     JStr ''BOEING CO''"
  by code_simp

text \<open>
  Claim C1, amended: provider results are merged by object spread, so for
  every field other than \<open>photoUrl\<close> the later provider wins. At every provider
  call that is not a last Planespotters call, the field afterwards is the
  spread of the provider's result over its value before: unchanged when the
  result does not have the field (as for a provider that failed and returned
  \<open>{}\<close>), and the provider's value, \<open>null\<close> included, when it has. That is so for
  OpenSky, the database, FlightAware, AviationStack, and for the Planespotters
  call by target registration, which is never the last call: the database
  lookup for the same registration follows it. A Planespotters call that is
  the last provider call of its request is the call of the early return or
  the call with the callsign; only its photo is used, and every other field
  stays as it was before the call.
\<close>

theorem non_photo_fields_follow_spread:
  "\<forall>i f. i < length (trace (GET env clk cache req)) \<and> f \<noteq> PhotoUrl \<longrightarrow>
     (if Suc i = length (trace (GET env clk cache req)) \<and>
         isPlanespottersCall (provider (trace (GET env clk cache req) ! i))
      then fieldValue f (after (trace (GET env clk cache req) ! i)) =
             fieldValue f (before (trace (GET env clk cache req) ! i))
      else fieldValue f (after (trace (GET env clk cache req) ! i)) =
             spreadKey (fieldValue f (before (trace (GET env clk cache req) ! i)))
               (fieldKey f (contribution (trace (GET env clk cache req) ! i)))) \<and>
     (\<forall>reg. Suc i < length (trace (GET env clk cache req)) \<and>
        provider (trace (GET env clk cache req) ! i) = PlanespottersCall reg \<longrightarrow>
        provider (trace (GET env clk cache req) ! Suc i) = SupabaseCall reg)"
proof (intro allI impI)
  fix i f
  assume a: "i < length (trace (GET env clk cache req)) \<and> f \<noteq> PhotoUrl"
  from mergedAsWritten_nth [OF GET_merged, of i env clk cache req] a
  show "(if Suc i = length (trace (GET env clk cache req)) \<and>
         isPlanespottersCall (provider (trace (GET env clk cache req) ! i))
      then fieldValue f (after (trace (GET env clk cache req) ! i)) =
             fieldValue f (before (trace (GET env clk cache req) ! i))
      else fieldValue f (after (trace (GET env clk cache req) ! i)) =
             spreadKey (fieldValue f (before (trace (GET env clk cache req) ! i)))
               (fieldKey f (contribution (trace (GET env clk cache req) ! i)))) \<and>
     (\<forall>reg. Suc i < length (trace (GET env clk cache req)) \<and>
        provider (trace (GET env clk cache req) ! i) = PlanespottersCall reg \<longrightarrow>
        provider (trace (GET env clk cache req) ! Suc i) = SupabaseCall reg)"
    by (auto simp add: spreadsFields_def keepsFields_def)
qed

theorem non_photo_fields_follow_spread_witness:
  "map provider (trace (GET spottedFleetWorld firstClock Map.empty byIcao)) =
     [OpenSkyCall ''48ae03'', SupabaseCall (JStr ''SP-LRD''),
      PlanespottersCall (JStr ''SP-LRD'')] \<and>
   p_owner (contribution (trace (GET spottedFleetWorld firstClock Map.empty byIcao) ! 2)) =
     Some (JStr ''LOT'') \<and>
   owner (before (trace (GET spottedFleetWorld firstClock Map.empty byIcao) ! 2)) = JNull \<and>
   owner (after (trace (GET spottedFleetWorld firstClock Map.empty byIcao) ! 2)) = JNull \<and>
   map provider (trace (GET photoWorld firstClock Map.empty byRegistration)) =
     [PlanespottersCall (JStr ''SP-LRD''), SupabaseCall (JStr ''SP-LRD''),
      FlightAwareCall (JStr ''SP-LRD'')] \<and>
   p_owner (contribution (trace (GET photoWorld firstClock Map.empty byRegistration) ! 0)) =
     Some (JStr ''LOT'') \<and>
   owner (before (trace (GET photoWorld firstClock Map.empty byRegistration) ! 0)) = JNull \<and>
   owner (after (trace (GET photoWorld firstClock Map.empty byRegistration) ! 0)) = JStr ''LOT''"
proof -
  have a: "map provider (trace (GET spottedFleetWorld firstClock Map.empty byIcao)) =
     [OpenSkyCall ''48ae03'', SupabaseCall (JStr ''SP-LRD''),
      PlanespottersCall (JStr ''SP-LRD'')]"
    by code_simp
  have b: "p_owner (contribution (trace (GET spottedFleetWorld firstClock Map.empty byIcao) ! 2)) =
     Some (JStr ''LOT'')"
    "owner (before (trace (GET spottedFleetWorld firstClock Map.empty byIcao) ! 2)) = JNull"
    by code_simp+
  have l: "length (trace (GET spottedFleetWorld firstClock Map.empty byIcao)) = 3"
    using arg_cong [OF a, of length] by simp
  have p: "provider (trace (GET spottedFleetWorld firstClock Map.empty byIcao) ! 2) =
      PlanespottersCall (JStr ''SP-LRD'')"
    using arg_cong [OF a, of "\<lambda>xs. xs ! 2"] l by simp
  from non_photo_fields_follow_spread [of spottedFleetWorld firstClock Map.empty byIcao,
      THEN spec [where x = "2 :: nat"], THEN spec [where x = Owner]] l p
  have "fieldValue Owner (after (trace (GET spottedFleetWorld firstClock Map.empty byIcao) ! 2)) =
      fieldValue Owner (before (trace (GET spottedFleetWorld firstClock Map.empty byIcao) ! 2))"
    by simp
  with b have k: "owner (after (trace (GET spottedFleetWorld firstClock Map.empty byIcao) ! 2)) = JNull"
    by simp
  have c: "map provider (trace (GET photoWorld firstClock Map.empty byRegistration)) =
     [PlanespottersCall (JStr ''SP-LRD''), SupabaseCall (JStr ''SP-LRD''),
      FlightAwareCall (JStr ''SP-LRD'')]"
    by code_simp
  have d: "p_owner (contribution (trace (GET photoWorld firstClock Map.empty byRegistration) ! 0)) =
     Some (JStr ''LOT'')"
    "owner (before (trace (GET photoWorld firstClock Map.empty byRegistration) ! 0)) = JNull"
    by code_simp+
  have l2: "length (trace (GET photoWorld firstClock Map.empty byRegistration)) = 3"
    using arg_cong [OF c, of length] by simp
  from non_photo_fields_follow_spread [of photoWorld firstClock Map.empty byRegistration,
      THEN spec [where x = "0 :: nat"], THEN spec [where x = Owner]] l2
  have "fieldValue Owner (after (trace (GET photoWorld firstClock Map.empty byRegistration) ! 0)) =
      spreadKey (fieldValue Owner (before (trace (GET photoWorld firstClock Map.empty byRegistration) ! 0)))
        (fieldKey Owner (contribution (trace (GET photoWorld firstClock Map.empty byRegistration) ! 0)))"
    by simp
  with d have s: "owner (after (trace (GET photoWorld firstClock Map.empty byRegistration) ! 0)) =
      JStr ''LOT''"
    by (simp add: spreadKey_def)
  from a b k c d s show ?thesis by simp
qed

section \<open>The bulk dataset: rows are read by position\<close>

lemma splitFrom_line:
  "CHR 0x0A \<notin> set h \<Longrightarrow>
   splitFrom [CHR 0x0A] piece (h @ CHR 0x0A # t) = (rev piece @ h) # splitFrom [CHR 0x0A] [] t"
  by (induction h arbitrary: piece) auto

lemma splitFrom_last_line:
  "CHR 0x0A \<notin> set h \<Longrightarrow> splitFrom [CHR 0x0A] piece h = [rev piece @ h]"
  by (induction h arbitrary: piece) auto

lemma splitFrom_field:
  "CHR 0x22 \<notin> set f \<Longrightarrow>
   splitFrom [CHR 0x22, CHR '','', CHR 0x22] piece (f @ [CHR 0x22, CHR '','', CHR 0x22] @ t) =
     (rev piece @ f) # splitFrom [CHR 0x22, CHR '','', CHR 0x22] [] t"
  by (induction f arbitrary: piece) auto

lemma splitFrom_last_field:
  "CHR 0x22 \<notin> set f \<Longrightarrow>
   splitFrom [CHR 0x22, CHR '','', CHR 0x22] piece (f @ [CHR 0x22]) = [rev piece @ f @ [CHR 0x22]]"
  by (induction f arbitrary: piece) auto

lemma stripQuotes_clean: "CHR 0x22 \<notin> set f \<Longrightarrow> stripQuotes f = f"
  by (induction f) (auto simp add: stripQuotes_def)

lemma stripQuotes_append [simp]: "stripQuotes (a @ b) = stripQuotes a @ stripQuotes b"
  by (simp add: stripQuotes_def)

lemma stripQuotes_quote [simp]: "stripQuotes [CHR 0x22] = []" "stripQuotes [] = []"
  by (simp_all add: stripQuotes_def)

lemma split_quoted_fields:
  "fs \<noteq> [] \<Longrightarrow> \<forall>f \<in> set fs. CHR 0x22 \<notin> set f \<Longrightarrow>
   map stripQuotes (splitFrom [CHR 0x22, CHR '','', CHR 0x22] piece
      (joinWith [CHR 0x22, CHR '','', CHR 0x22] fs @ [CHR 0x22])) =
     (stripQuotes (rev piece) @ hd fs) # tl fs"
proof (induction "[CHR 0x22, CHR '','', CHR 0x22]" fs arbitrary: piece rule: joinWith.induct)
  case 1
  then show ?case by simp
next
  case (2 x)
  then show ?case by (simp add: splitFrom_last_field stripQuotes_clean)
next
  case (3 x y ys)
  from 3 have q: "CHR 0x22 \<notin> set x" by simp
  have "splitFrom [CHR 0x22, CHR '','', CHR 0x22] piece
      (joinWith [CHR 0x22, CHR '','', CHR 0x22] (x # y # ys) @ [CHR 0x22]) =
      (rev piece @ x) # splitFrom [CHR 0x22, CHR '','', CHR 0x22] []
        (joinWith [CHR 0x22, CHR '','', CHR 0x22] (y # ys) @ [CHR 0x22])"
    using splitFrom_field [OF q, of piece
        "joinWith [CHR 0x22, CHR '','', CHR 0x22] (y # ys) @ [CHR 0x22]"]
    by simp
  moreover have "map stripQuotes (splitFrom [CHR 0x22, CHR '','', CHR 0x22] []
        (joinWith [CHR 0x22, CHR '','', CHR 0x22] (y # ys) @ [CHR 0x22])) = y # ys"
    using 3 by simp
  ultimately show ?case using q by (simp add: stripQuotes_clean)
qed

lemma first_quote_is_no_separator:
  assumes "fs \<noteq> []" and "CHR 0x22 \<notin> set (hd fs)" and "hd fs \<noteq> '',''"
  shows "\<not> startsWith (joinWith [CHR 0x22, CHR '','', CHR 0x22] fs @ [CHR 0x22]) [CHR '','', CHR 0x22]"
proof -
  obtain x xs where fs: "fs = x # xs" using assms(1) by (cases fs) auto
  with assms have x: "CHR 0x22 \<notin> set x" "x \<noteq> '',''" by simp_all
  have "\<not> startsWith (x @ CHR 0x22 # t) [CHR '','', CHR 0x22]" for t
  proof (cases x)
    case Nil
    then show ?thesis by simp
  next
    case (Cons c x')
    with x show ?thesis by (cases x') auto
  qed
  then show ?thesis unfolding fs by (cases xs) simp_all
qed

lemma parseLine_csvRow:
  assumes "fs \<noteq> []" and "\<forall>f \<in> set fs. CHR 0x22 \<notin> set f" and "hd fs \<noteq> '',''"
  shows "parseLine (csvRow fs) = fs"
proof -
  from assms have "\<not> startsWith (joinWith [CHR 0x22, CHR '','', CHR 0x22] fs @ [CHR 0x22])
      [CHR '','', CHR 0x22]"
    by (intro first_quote_is_no_separator) auto
  then have "splitOn [CHR 0x22, CHR '','', CHR 0x22] (csvRow fs) =
      splitFrom [CHR 0x22, CHR '','', CHR 0x22] [CHR 0x22]
        (joinWith [CHR 0x22, CHR '','', CHR 0x22] fs @ [CHR 0x22])"
    by (simp add: splitOn_def csvRow_def)
  with split_quoted_fields [OF assms(1,2), of "[CHR 0x22]"] assms(1)
  show ?thesis by (simp add: parseLine_def)
qed

lemma trim_csvRow: "trim (csvRow fs) \<noteq> []"
  by (simp add: trim_def csvRow_def isSpace_def dropWhile_eq_Nil_conv)

lemma splitFrom_lines:
  "ls \<noteq> [] \<Longrightarrow> \<forall>l \<in> set ls. CHR 0x0A \<notin> set l \<Longrightarrow>
   splitFrom [CHR 0x0A] piece (joinWith [CHR 0x0A] ls) = (rev piece @ hd ls) # tl ls"
proof (induction "[CHR 0x0A]" ls arbitrary: piece rule: joinWith.induct)
  case 1
  then show ?case by simp
next
  case (2 x)
  then show ?case by (simp add: splitFrom_last_line)
next
  case (3 x y ys)
  from 3 have x: "CHR 0x0A \<notin> set x" by simp
  from 3 have "splitFrom [CHR 0x0A] [] (joinWith [CHR 0x0A] (y # ys)) = y # ys" by simp
  with splitFrom_line [OF x, of piece "joinWith [CHR 0x0A] (y # ys)"] show ?case by simp
qed

lemma lines_of_dataset:
  "\<forall>l \<in> set (header # ls). CHR 0x0A \<notin> set l \<Longrightarrow>
   drop 1 (splitOn [CHR 0x0A] (joinWith [CHR 0x0A] (header # ls))) = ls"
  using splitFrom_lines [of "header # ls" "[]"] by (simp add: splitOn_def)

lemma scanLines_passes:
  "\<forall>l \<in> set ls. \<not> lineMatches reg l \<Longrightarrow> scanLines reg (ls @ others) = scanLines reg others"
  by (induction ls) (auto simp add: lineMatches_def Let_def)

lemma scanLines_row:
  assumes "20 \<le> length fs" and "\<forall>f \<in> set fs. CHR 0x22 \<notin> set f" and "hd fs \<noteq> '',''"
    and "fs ! 1 = reg"
  shows "scanLines reg (csvRow fs # others) = Some (rowInfo fs)"
proof -
  from assms(1) have "fs \<noteq> []" by auto
  then have "parseLine (csvRow fs) = fs" using assms(2,3) by (rule parseLine_csvRow)
  with assms(1,4) show ?thesis by (simp add: trim_csvRow)
qed

lemma rowInfo_by_position:
  "rowInfo fs =
     \<lparr> p_registration = Some (JStr (fs ! 1)),
       p_model = Some (if fs ! 4 \<noteq> [] then JStr (fs ! 4)
                       else if fs ! 5 \<noteq> [] then JStr (fs ! 5) else JNull),
       p_manufacturer = Some (if fs ! 3 \<noteq> [] then JStr (fs ! 3)
                              else if fs ! 2 \<noteq> [] then JStr (fs ! 2) else JNull),
       p_owner = Some (if fs ! 13 \<noteq> [] then JStr (fs ! 13) else JNull),
       p_operator = Some (if fs ! 9 \<noteq> [] then JStr (fs ! 9) else JNull),
       p_yearBuilt = Some (if fs ! 18 \<noteq> [] then JStr (fs ! 18) else JNull),
       p_engineType = Some JNull,
       p_category = Some JNull,
       p_photoUrl = Some JNull \<rparr>"
  by (simp add: rowInfo_def Let_def strOr_def strOrNull_def)

text \<open>
  Claim C9: the first line of the dataset is never examined, whatever it
  holds; every further line is split at \<open>","\<close> and read by position. Let the
  dataset have, after its first line, any lines that do not end the search for
  the registration asked for (blank lines, rows with fewer than twenty values,
  rows of other aircraft), then a row in the format of the dataset, every
  field in double quotes, with at least twenty fields and the registration
  asked for as its second field, then any further lines; and let no fresh
  cache entry exist for the registration. Then the adapter returns the record
  of that row: registration from position 1, model from position 4 or else
  position 5, manufacturer from position 3 or else position 2, owner from
  position 13, operator from position 9, year built from position 18, an
  empty value read as \<open>null\<close>, and \<open>null\<close> for engine type, category and photo.
  Without such a row the adapter returns \<open>{}\<close> and stores nothing. For the row
  \<open>"48ae03","SP-LRD","BOE","Boeing","737-800",...\<close> the query \<open>SP-LRD\<close> returns
  model \<open>737-800\<close> and manufacturer \<open>Boeing\<close>.
\<close>

theorem csv_lookup_reads_row_by_position:
  assumes "\<forall>l \<in> set (header # ls @ csvRow fs # rest). CHR 0x0A \<notin> set l"
    and "\<forall>l \<in> set ls. \<not> lineMatches reg l"
    and "20 \<le> length fs"
    and "\<forall>f \<in> set fs. CHR 0x22 \<notin> set f"
    and "hd fs \<noteq> '',''"
    and "fs ! 1 = reg"
    and "\<forall>e. cache reg = Some e \<longrightarrow>
           \<not> checkedAt clk - csvTimestamp e < OPENSKY_CSV_CACHE_DURATION"
  shows "fst (getOpenSkyCSVInfo
             (Ok (joinWith [CHR 0x0A] (header # ls @ csvRow fs # rest))) clk cache reg) =
           \<lparr> p_registration = Some (JStr reg),
             p_model = Some (if fs ! 4 \<noteq> [] then JStr (fs ! 4)
                             else if fs ! 5 \<noteq> [] then JStr (fs ! 5) else JNull),
             p_manufacturer = Some (if fs ! 3 \<noteq> [] then JStr (fs ! 3)
                                    else if fs ! 2 \<noteq> [] then JStr (fs ! 2) else JNull),
             p_owner = Some (if fs ! 13 \<noteq> [] then JStr (fs ! 13) else JNull),
             p_operator = Some (if fs ! 9 \<noteq> [] then JStr (fs ! 9) else JNull),
             p_yearBuilt = Some (if fs ! 18 \<noteq> [] then JStr (fs ! 18) else JNull),
             p_engineType = Some JNull,
             p_category = Some JNull,
             p_photoUrl = Some JNull \<rparr> \<and>
         getOpenSkyCSVInfo (Ok (joinWith [CHR 0x0A] (header # ls))) clk cache reg =
           (emptyPartial, cache)"
proof (intro conjI)
  have "drop 1 (splitOn [CHR 0x0A] (joinWith [CHR 0x0A] (header # ls @ csvRow fs # rest))) =
      ls @ csvRow fs # rest"
    using assms(1) by (intro lines_of_dataset) simp
  moreover have "scanLines reg (ls @ csvRow fs # rest) = Some (rowInfo fs)"
    using scanLines_passes [OF assms(2)] scanLines_row [OF assms(3,4,5,6)] by simp
  ultimately have "fst (getOpenSkyCSVInfo
      (Ok (joinWith [CHR 0x0A] (header # ls @ csvRow fs # rest))) clk cache reg) = rowInfo fs"
    using assms(7) by (auto simp add: getOpenSkyCSVInfo_def Let_def split: option.splits)
  with assms(6) show "fst (getOpenSkyCSVInfo
             (Ok (joinWith [CHR 0x0A] (header # ls @ csvRow fs # rest))) clk cache reg) =
           \<lparr> p_registration = Some (JStr reg),
             p_model = Some (if fs ! 4 \<noteq> [] then JStr (fs ! 4)
                             else if fs ! 5 \<noteq> [] then JStr (fs ! 5) else JNull),
             p_manufacturer = Some (if fs ! 3 \<noteq> [] then JStr (fs ! 3)
                                    else if fs ! 2 \<noteq> [] then JStr (fs ! 2) else JNull),
             p_owner = Some (if fs ! 13 \<noteq> [] then JStr (fs ! 13) else JNull),
             p_operator = Some (if fs ! 9 \<noteq> [] then JStr (fs ! 9) else JNull),
             p_yearBuilt = Some (if fs ! 18 \<noteq> [] then JStr (fs ! 18) else JNull),
             p_engineType = Some JNull,
             p_category = Some JNull,
             p_photoUrl = Some JNull \<rparr>"
    using rowInfo_by_position [of fs] by simp
  have "drop 1 (splitOn [CHR 0x0A] (joinWith [CHR 0x0A] (header # ls))) = ls"
    using assms(1) by (intro lines_of_dataset) simp
  moreover have "scanLines reg ls = None"
    using scanLines_passes [OF assms(2), of "[]"] by simp
  ultimately show "getOpenSkyCSVInfo (Ok (joinWith [CHR 0x0A] (header # ls))) clk cache reg =
      (emptyPartial, cache)"
    using assms(7) by (auto simp add: getOpenSkyCSVInfo_def Let_def split: option.splits)
qed

theorem csv_lookup_reads_row_by_position_witness:
  "p_registration (fst (getOpenSkyCSVInfo (Ok exampleDataset) firstClock Map.empty ''SP-LRD'')) =
     Some (JStr ''SP-LRD'') \<and>
   p_model (fst (getOpenSkyCSVInfo (Ok exampleDataset) firstClock Map.empty ''SP-LRD'')) =
     Some (JStr ''737-800'') \<and>
   p_manufacturer (fst (getOpenSkyCSVInfo (Ok exampleDataset) firstClock Map.empty ''SP-LRD'')) =
     Some (JStr ''Boeing'') \<and>
   p_owner (fst (getOpenSkyCSVInfo (Ok exampleDataset) firstClock Map.empty ''SP-LRD'')) =
     Some (JStr ''LOT Polish Airlines'') \<and>
   p_operator (fst (getOpenSkyCSVInfo (Ok exampleDataset) firstClock Map.empty ''SP-LRD'')) =
     Some (JStr ''LOT'') \<and>
   p_yearBuilt (fst (getOpenSkyCSVInfo (Ok exampleDataset) firstClock Map.empty ''SP-LRD'')) =
     Some (JStr ''2010'') \<and>
   getOpenSkyCSVInfo (Ok (joinWith [CHR 0x0A] (csvRow exampleFields # earlierLines)))
     firstClock Map.empty ''SP-LRD'' = (emptyPartial, Map.empty)"
proof -
  have 1: "\<forall>l \<in> set (exampleHeader # earlierLines @ csvRow exampleFields # [[]]).
      CHR 0x0A \<notin> set l" by code_simp
  have h1: "\<forall>l \<in> set (csvRow exampleFields # earlierLines @ csvRow exampleFields # [[]]).
      CHR 0x0A \<notin> set l" by code_simp
  have 2: "\<forall>l \<in> set earlierLines. \<not> lineMatches ''SP-LRD'' l" by code_simp
  have 3: "20 \<le> length exampleFields" by code_simp
  have 4: "\<forall>f \<in> set exampleFields. CHR 0x22 \<notin> set f" by code_simp
  have 5: "hd exampleFields \<noteq> '',''" by code_simp
  have 6: "exampleFields ! 1 = ''SP-LRD''" by code_simp
  have 7: "\<forall>e. Map.empty ''SP-LRD'' = Some e \<longrightarrow>
           \<not> checkedAt firstClock - csvTimestamp e < OPENSKY_CSV_CACHE_DURATION" by simp
  have m: "exampleFields ! 4 = ''737-800''" "exampleFields ! 3 = ''Boeing''"
    "exampleFields ! 13 = ''LOT Polish Airlines''" "exampleFields ! 9 = ''LOT''"
    "exampleFields ! 18 = ''2010''" by code_simp+
  from csv_lookup_reads_row_by_position [OF 1 2 3 4 5 6 7]
       csv_lookup_reads_row_by_position [OF h1 2 3 4 5 6 7] m
  show ?thesis by (simp add: exampleDataset_def)
qed

end
